theory Spec2Isabelle
  imports Main "HOL-Library.Monad_Syntax" "HOL-Library.Char_ord" "HOL-Library.List_Lexorder"
begin

unbundle bit_operations_syntax

section \<open>LAN Watch: the scanner and the dashboard as functions\<close>

text \<open>
  The two source files, \<^verbatim>\<open>lan_watch_scanner.py\<close> (a command-line program) and
  \<^verbatim>\<open>lan_watch_dashboard.py\<close> (a Streamlit page), share their scanning functions.
  Everything the functions obtain from outside (the output of \<^verbatim>\<open>ipconfig\<close>, the answers
  to the ARP broadcast, reverse DNS, the Bluetooth discovery, the administrator check, the
  clock of the Streamlit cache) is an explicit argument; every exception of the source is a
  value.

  A Python \<^verbatim>\<open>str\<close> is modelled as a \<^typ>\<open>string\<close> whose characters are the code points
  0 to 255. A device dictionary such as \<^verbatim>\<open>{"ip": ..., "mac": ...}\<close> is a map from keys to
  values.
\<close>

subsection \<open>Exceptions and dictionaries\<close>

datatype exn =
    ValueError
  | TypeError
  | RuntimeError
  | KeyError
  | CalledProcessError
  | OSError
  | herror
  | timeout
  | gaierror
  | BleakError
  | ScapyError

type_synonym pydict = "string \<rightharpoonup> string"

text \<open>\<^verbatim>\<open>d[k]\<close>: the value, or \<^verbatim>\<open>KeyError\<close>.\<close>

definition getitem :: "pydict \<Rightarrow> string \<Rightarrow> exn + string" where
  "getitem d k = (case d k of None \<Rightarrow> Inl KeyError | Some v \<Rightarrow> Inr v)"

subsection \<open>Character classes and the regular expression of the range resolver\<close>

text \<open>
  \<^verbatim>\<open>\d\<close> and \<^verbatim>\<open>\s\<close> of a Python \<^verbatim>\<open>str\<close> pattern, on the code points below 256: the
  decimal digits are \<^verbatim>\<open>0\<close> to \<^verbatim>\<open>9\<close>; the whitespace characters are 0x09 to 0x0D,
  0x1C to 0x20, 0x85 and 0xA0.
\<close>

definition is_digit :: "char \<Rightarrow> bool" where
  "is_digit c = (c \<in> set ''0123456789'')"

definition is_space :: "char \<Rightarrow> bool" where
  "is_space c = (c \<in> set [CHR 0x09, CHR 0x0A, CHR 0x0B, CHR 0x0C, CHR 0x0D,
                           CHR 0x1C, CHR 0x1D, CHR 0x1E, CHR 0x1F, CHR 0x20,
                           CHR 0x85, CHR 0xA0])"

text \<open>The class \<^verbatim>\<open>[.\s]\<close>.\<close>

definition is_dot_or_space :: "char \<Rightarrow> bool" where
  "is_dot_or_space c = (c = CHR ''.'' \<or> is_space c)"

text \<open>
  The pieces of the pattern. Each returns what is left of the subject after the piece.
  \<open>match_plus P\<close> is a greedy \<^verbatim>\<open>P+\<close> and \<open>match_star P\<close> a greedy \<^verbatim>\<open>P*\<close>. In the
  pattern below every repeated class is followed by a piece that starts with a
  character outside the class (or by the end of the pattern), so a shorter repetition
  can never lead to a match where the longest one does not, and the backtracking of
  \<^verbatim>\<open>re\<close> has nothing to try.
\<close>

fun match_lit :: "string \<Rightarrow> string \<Rightarrow> string option" where
  "match_lit [] s = Some s"
| "match_lit (p # ps) [] = None"
| "match_lit (p # ps) (c # cs) = (if p = c then match_lit ps cs else None)"

definition match_plus :: "(char \<Rightarrow> bool) \<Rightarrow> string \<Rightarrow> (string \<times> string) option" where
  "match_plus P s =
     (if takeWhile P s = [] then None else Some (takeWhile P s, dropWhile P s))"

definition match_star :: "(char \<Rightarrow> bool) \<Rightarrow> string \<Rightarrow> (string \<times> string) option" where
  "match_star P s = Some (takeWhile P s, dropWhile P s)"

text \<open>The group \<^verbatim>\<open>\d+\.\d+\.\d+\.\d+\<close>: the captured text and the rest.\<close>

definition match_quad :: "string \<Rightarrow> (string \<times> string) option" where
  "match_quad s = do {
     (a, s1) \<leftarrow> match_plus is_digit s;
     s2 \<leftarrow> match_lit ''.'' s1;
     (b, s3) \<leftarrow> match_plus is_digit s2;
     s4 \<leftarrow> match_lit ''.'' s3;
     (c, s5) \<leftarrow> match_plus is_digit s4;
     s6 \<leftarrow> match_lit ''.'' s5;
     (d, s7) \<leftarrow> match_plus is_digit s6;
     Some (a @ ''.'' @ b @ ''.'' @ c @ ''.'' @ d, s7)
   }"

text \<open>
  The whole pattern, tried at the start of \<open>s\<close>:
  \<^verbatim>\<open>IPv4 Address[.\s]+:\s*(?P<ip>\d+\.\d+\.\d+\.\d+)\s+Subnet Mask[.\s]+:\s*(?P<mask>\d+\.\d+\.\d+\.\d+)\<close>.
  The result is the two groups and the number of characters matched.
\<close>

definition match_here :: "string \<Rightarrow> (string \<times> string \<times> nat) option" where
  "match_here s = do {
     s1 \<leftarrow> match_lit ''IPv4 Address'' s;
     (_, s2) \<leftarrow> match_plus is_dot_or_space s1;
     s3 \<leftarrow> match_lit '':'' s2;
     (_, s4) \<leftarrow> match_star is_space s3;
     (ip_str, s5) \<leftarrow> match_quad s4;
     (_, s6) \<leftarrow> match_plus is_space s5;
     s7 \<leftarrow> match_lit ''Subnet Mask'' s6;
     (_, s8) \<leftarrow> match_plus is_dot_or_space s7;
     s9 \<leftarrow> match_lit '':'' s8;
     (_, s10) \<leftarrow> match_star is_space s9;
     (mask_str, s11) \<leftarrow> match_quad s10;
     Some (ip_str, mask_str, length s - length s11)
   }"

text \<open>
  \<^verbatim>\<open>re.finditer\<close>: the matches from left to right, without overlap. The search for the
  next match starts where the last one ended; a match is never empty.
\<close>

fun finditer :: "string \<Rightarrow> (string \<times> string) list" where
  "finditer [] = []"
| "finditer (c # cs) =
     (case match_here (c # cs) of
        Some (ip_str, mask_str, n) \<Rightarrow> (ip_str, mask_str) # finditer (drop (n - 1) cs)
      | None \<Rightarrow> finditer cs)"

text \<open>\<^verbatim>\<open>s.startswith(p)\<close>.\<close>

fun startswith :: "string \<Rightarrow> string \<Rightarrow> bool" where
  "startswith s [] = True"
| "startswith [] (p # ps) = False"
| "startswith (c # cs) (p # ps) = (c = p \<and> startswith cs ps)"

subsection \<open>The part of the standard module \<^verbatim>\<open>ipaddress\<close> that the program uses\<close>

text \<open>\<^verbatim>\<open>s.split(sep)\<close> for a separator of one character.\<close>

fun split_on :: "char \<Rightarrow> string \<Rightarrow> string list" where
  "split_on sep [] = [[]]"
| "split_on sep (c # cs) =
     (if c = sep then [] # split_on sep cs
      else (case split_on sep cs of
              w # ws \<Rightarrow> (c # w) # ws
            | [] \<Rightarrow> [[c]]))"

text \<open>\<^verbatim>\<open>int(s, 10)\<close> on a string of ASCII digits, and \<^verbatim>\<open>str(n)\<close> for \<open>n \<ge> 0\<close>.\<close>

definition digit_val :: "char \<Rightarrow> int" where
  "digit_val c = int (of_char c) - 48"

definition int_of_str :: "string \<Rightarrow> int" where
  "int_of_str s = foldl (\<lambda>a c. 10 * a + digit_val c) 0 s"

definition digit_char :: "nat \<Rightarrow> char" where
  "digit_char n = ''0123456789'' ! n"

fun str_nat :: "nat \<Rightarrow> string" where
  "str_nat n = (if n < 10 then [digit_char n] else str_nat (n div 10) @ [digit_char (n mod 10)])"

declare str_nat.simps [simp del]

text \<open>
  \<^verbatim>\<open>_BaseV4._parse_octet\<close>: not empty, ASCII digits only, at most three of them, no
  leading zero except in \<^verbatim>\<open>0\<close> itself, at most 255. \<open>None\<close> is \<^verbatim>\<open>ValueError\<close>.
\<close>

definition parse_octet :: "string \<Rightarrow> int option" where
  "parse_octet octet_str =
     (if octet_str = [] then None
      else if \<not> list_all is_digit octet_str then None
      else if length octet_str > 3 then None
      else if octet_str \<noteq> ''0'' \<and> hd octet_str = CHR ''0'' then None
      else if int_of_str octet_str > 255 then None
      else Some (int_of_str octet_str))"

text \<open>\<^verbatim>\<open>int.from_bytes(octets, 'big')\<close>.\<close>

definition from_bytes :: "int list \<Rightarrow> int" where
  "from_bytes bs = foldl (\<lambda>a b. a * 256 + b) 0 bs"

text \<open>
  \<^verbatim>\<open>_BaseV4._ip_int_from_string\<close>: four octets separated by dots. \<open>None\<close> is
  \<^verbatim>\<open>AddressValueError\<close>.
\<close>

definition ip_int_from_string :: "string \<Rightarrow> int option" where
  "ip_int_from_string ip_str =
     (if ip_str = [] then None
      else let octets = split_on CHR ''.'' ip_str in
        if length octets \<noteq> 4 then None
        else map_option from_bytes (those (map parse_octet octets)))"

definition ALL_ONES :: int where
  "ALL_ONES = 2 ^ 32 - 1"

text \<open>\<^verbatim>\<open>int.bit_length\<close> and \<^verbatim>\<open>_count_righthand_zero_bits\<close>.\<close>

fun bit_length_nat :: "nat \<Rightarrow> nat" where
  "bit_length_nat n = (if n = 0 then 0 else Suc (bit_length_nat (n div 2)))"

declare bit_length_nat.simps [simp del]

definition bit_length :: "int \<Rightarrow> nat" where
  "bit_length x = bit_length_nat (nat \<bar>x\<bar>)"

definition count_righthand_zero_bits :: "int \<Rightarrow> nat \<Rightarrow> nat" where
  "count_righthand_zero_bits number bits =
     (if number = 0 then bits
      else min bits (bit_length (NOT number AND (number - 1))))"

text \<open>
  \<^verbatim>\<open>_prefix_from_ip_int\<close>: the prefix length of a mask of the shape ones-then-zeroes.
  \<open>None\<close> is the \<^verbatim>\<open>ValueError\<close> for a mask that mixes zeroes and ones.
\<close>

definition prefix_from_ip_int :: "int \<Rightarrow> nat option" where
  "prefix_from_ip_int ip_int =
     (let trailing_zeroes = count_righthand_zero_bits ip_int 32;
          prefixlen = 32 - trailing_zeroes;
          leading_ones = drop_bit trailing_zeroes ip_int;
          all_ones = push_bit prefixlen 1 - 1
      in if leading_ones \<noteq> all_ones then None else Some prefixlen)"

text \<open>
  \<^verbatim>\<open>_prefix_from_prefix_string\<close> (a mask written as a prefix length) and
  \<^verbatim>\<open>_prefix_from_ip_string\<close> (a mask written as a dotted quad: first read as a
  netmask, then, with the bits inverted, as a hostmask). \<open>None\<close> is
  \<^verbatim>\<open>NetmaskValueError\<close>.
\<close>

definition prefix_from_prefix_string :: "string \<Rightarrow> nat option" where
  "prefix_from_prefix_string prefixlen_str =
     (if \<not> (prefixlen_str \<noteq> [] \<and> list_all is_digit prefixlen_str) then None
      else if \<not> (int_of_str prefixlen_str \<le> 32) then None
      else Some (nat (int_of_str prefixlen_str)))"

definition prefix_from_ip_string :: "string \<Rightarrow> nat option" where
  "prefix_from_ip_string ip_str =
     (case ip_int_from_string ip_str of
        None \<Rightarrow> None
      | Some ip_int \<Rightarrow>
          (case prefix_from_ip_int ip_int of
             Some p \<Rightarrow> Some p
           | None \<Rightarrow> prefix_from_ip_int (ip_int XOR ALL_ONES)))"

definition make_netmask :: "string \<Rightarrow> nat option" where
  "make_netmask arg =
     (case prefix_from_prefix_string arg of
        Some p \<Rightarrow> Some p
      | None \<Rightarrow> prefix_from_ip_string arg)"

text \<open>\<^verbatim>\<open>_ip_int_from_prefix\<close>: the netmask of a prefix length.\<close>

definition ip_int_from_prefix :: "nat \<Rightarrow> int" where
  "ip_int_from_prefix prefixlen = ALL_ONES XOR drop_bit prefixlen ALL_ONES"

text \<open>\<^verbatim>\<open>str\<close> of an \<^verbatim>\<open>IPv4Address\<close> and of an \<^verbatim>\<open>IPv4Network\<close>.\<close>

definition str_address :: "int \<Rightarrow> string" where
  "str_address ip_int =
     str_nat (nat (drop_bit 24 ip_int AND 255)) @ ''.'' @
     str_nat (nat (drop_bit 16 ip_int AND 255)) @ ''.'' @
     str_nat (nat (drop_bit 8 ip_int AND 255)) @ ''.'' @
     str_nat (nat (ip_int AND 255))"

definition str_network :: "int \<Rightarrow> nat \<Rightarrow> string" where
  "str_network network_address prefixlen =
     str_address network_address @ ''/'' @ str_nat prefixlen"

text \<open>
  \<^verbatim>\<open>str(ipaddress.ip_interface(address).network)\<close>. The text is split at \<^verbatim>\<open>/\<close> (more
  than one \<^verbatim>\<open>/\<close> is an error, none means a prefix of 32); the address is parsed; the
  network is built non-strictly, which clears the host bits: its address is the bitwise
  AND of the address and the netmask. \<open>None\<close> is \<^verbatim>\<open>ValueError\<close>. The function first
  tries IPv4 and then IPv6; the IPv6 reading needs a colon in the address, which the
  groups of the pattern above never contain, so only the IPv4 reading is modelled.
\<close>

definition ip_interface_network :: "string \<Rightarrow> string option" where
  "ip_interface_network address =
     (case split_on CHR ''/'' address of
        [addr] \<Rightarrow>
          map_option (\<lambda>ip_int. str_network (ip_int AND ip_int_from_prefix 32) 32)
            (ip_int_from_string addr)
      | [addr, msk] \<Rightarrow>
          (case ip_int_from_string addr of
             None \<Rightarrow> None
           | Some ip_int \<Rightarrow>
               (case make_netmask msk of
                  None \<Rightarrow> None
                | Some prefixlen \<Rightarrow>
                    Some (str_network (ip_int AND ip_int_from_prefix prefixlen) prefixlen)))
      | _ \<Rightarrow> None)"

subsection \<open>The range resolver\<close>

text \<open>
  The loop over the matches of \<^verbatim>\<open>get_local_network_range_windows\<close>: the first match
  whose groups are not empty and whose address text does not start with
  \<^verbatim>\<open>169.254\<close> decides; if there is none, \<^verbatim>\<open>RuntimeError\<close> is raised.
\<close>

fun range_loop :: "(string \<times> string) list \<Rightarrow> exn + string" where
  "range_loop [] = Inl RuntimeError"
| "range_loop ((ip_str, mask_str) # matches) =
     (if ip_str \<noteq> [] \<and> mask_str \<noteq> [] \<and> \<not> startswith ip_str ''169.254'' then
        (case ip_interface_network (ip_str @ ''/'' @ mask_str) of
           None \<Rightarrow> Inl ValueError
         | Some network_range \<Rightarrow> Inr network_range)
      else range_loop matches)"

text \<open>
  \<^verbatim>\<open>get_local_network_range_windows\<close>. Its argument is what
  \<^verbatim>\<open>subprocess.run(["ipconfig"], ..., check=True)\<close> gave: an exception or the text of
  the standard output. Every exception is caught, reported and turned into \<^verbatim>\<open>None\<close>.
\<close>

definition get_local_network_range_windows :: "exn + string \<Rightarrow> string option" where
  "get_local_network_range_windows run =
     (case run of
        Inl e \<Rightarrow> None
      | Inr output \<Rightarrow>
          (case range_loop (finditer output) of
             Inl e \<Rightarrow> None
           | Inr network_range \<Rightarrow> Some network_range))"

subsection \<open>The administrator check\<close>

text \<open>
  \<^verbatim>\<open>is_admin\<close>. Its arguments are \<^verbatim>\<open>platform.system()\<close> and what the two system calls
  give, \<^verbatim>\<open>ctypes.windll.shell32.IsUserAnAdmin()\<close> and \<^verbatim>\<open>os.geteuid()\<close>: an exception
  or a number. An exception makes the answer \<^verbatim>\<open>False\<close>.
\<close>

definition is_admin :: "string \<Rightarrow> exn + int \<Rightarrow> exn + int \<Rightarrow> bool" where
  "is_admin system user_an_admin euid =
     (if system = ''Windows'' then
        (case user_an_admin of Inl e \<Rightarrow> False | Inr r \<Rightarrow> r \<noteq> 0)
      else
        (case euid of Inl e \<Rightarrow> False | Inr uid \<Rightarrow> uid = 0))"

subsection \<open>The ARP scan\<close>

text \<open>
  The fields of an ARP packet that the program reads. \<^verbatim>\<open>scapy.srp\<close> returns the
  answered list as pairs of a sent packet and the packet received in answer to it.
\<close>

record arp_packet =
  psrc :: string
  hwsrc :: string

type_synonym answered = "(arp_packet \<times> arp_packet) list"

text \<open>
  The loop of \<^verbatim>\<open>scan_wifi_network\<close> over the answered list: \<^verbatim>\<open>element[1]\<close> is the
  response, and one dictionary is appended for every element.
\<close>

fun wifi_loop :: "answered \<Rightarrow> pydict list \<Rightarrow> pydict list" where
  "wifi_loop [] clients_list = clients_list"
| "wifi_loop (element # rest) clients_list =
     wifi_loop rest
       (clients_list @ [[''ip'' \<mapsto> psrc (snd element), ''mac'' \<mapsto> hwsrc (snd element)]])"

text \<open>
  \<^verbatim>\<open>scan_wifi_network\<close>, in both files. The argument is what building the packets and
  \<^verbatim>\<open>scp.srp(..., timeout=2)[0]\<close> gave for the range: an exception, which is reported and
  answered by the empty list, or the answered list.
\<close>

definition scan_wifi_network :: "exn + answered \<Rightarrow> pydict list" where
  "scan_wifi_network srp_result =
     (case srp_result of
        Inl e \<Rightarrow> []
      | Inr answered_list \<Rightarrow> wifi_loop answered_list [])"

subsection \<open>The host names\<close>

text \<open>
  Reverse DNS is a function from the address text to what \<^verbatim>\<open>socket.gethostbyaddr\<close>
  gives: an exception or the host name (the first component of its result).

  The body of the loop of \<^verbatim>\<open>enrich_wifi_devices_with_hostname\<close> in the scanner, with its
  two handlers, \<^verbatim>\<open>except socket.herror\<close> and \<^verbatim>\<open>except Exception\<close>. A missing key
  \<^verbatim>\<open>'ip'\<close> raises \<^verbatim>\<open>KeyError\<close> inside the \<^verbatim>\<open>try\<close> and is handled like any other
  exception.
\<close>

definition enrich_client :: "(string \<Rightarrow> exn + string) \<Rightarrow> pydict \<Rightarrow> pydict" where
  "enrich_client lookup client =
     (case getitem client ''ip'' of
        Inl e \<Rightarrow> client(''name'' \<mapsto> ''N/A'')
      | Inr ip_address \<Rightarrow>
          (case lookup ip_address of
             Inr hostname \<Rightarrow> client(''name'' \<mapsto> hostname)
           | Inl e \<Rightarrow>
               (if e = herror then client(''name'' \<mapsto> ''N/A'')
                else client(''name'' \<mapsto> ''N/A''))))"

text \<open>
  \<^verbatim>\<open>enrich_wifi_devices_with_hostname\<close> of the scanner. The source writes the name into
  each dictionary of the list and returns the list; the dictionaries of the list are
  distinct objects, made one by one by \<^verbatim>\<open>scan_wifi_network\<close>.
\<close>

fun enrich_loop :: "(string \<Rightarrow> exn + string) \<Rightarrow> pydict list \<Rightarrow> pydict list" where
  "enrich_loop lookup [] = []"
| "enrich_loop lookup (client # rest) = enrich_client lookup client # enrich_loop lookup rest"

definition enrich_wifi_devices_with_hostname ::
    "(string \<Rightarrow> exn + string) \<Rightarrow> pydict list \<Rightarrow> pydict list" where
  "enrich_wifi_devices_with_hostname lookup clients_list =
     (if clients_list = [] then [] else enrich_loop lookup clients_list)"

text \<open>
  The same function in the dashboard. Its loop has one handler,
  \<^verbatim>\<open>except (socket.herror, Exception)\<close>, and after the \<^verbatim>\<open>try\<close> statement it
  updates the progress bar with the text \<^verbatim>\<open>f"Looking up: {client['ip']}"\<close>. That read
  of \<^verbatim>\<open>client['ip']\<close> is outside the \<^verbatim>\<open>try\<close>: for a dictionary without the key it
  raises \<^verbatim>\<open>KeyError\<close>, which leaves the function.
\<close>

definition dashboard_enrich_client :: "(string \<Rightarrow> exn + string) \<Rightarrow> pydict \<Rightarrow> pydict" where
  "dashboard_enrich_client lookup client =
     (case getitem client ''ip'' of
        Inl e \<Rightarrow> client(''name'' \<mapsto> ''N/A'')
      | Inr ip_address \<Rightarrow>
          (case lookup ip_address of
             Inr hostname \<Rightarrow> client(''name'' \<mapsto> hostname)
           | Inl e \<Rightarrow> client(''name'' \<mapsto> ''N/A'')))"

fun dashboard_enrich_loop ::
    "(string \<Rightarrow> exn + string) \<Rightarrow> pydict list \<Rightarrow> exn + pydict list" where
  "dashboard_enrich_loop lookup [] = Inr []"
| "dashboard_enrich_loop lookup (client # rest) =
     (case getitem (dashboard_enrich_client lookup client) ''ip'' of
        Inl e \<Rightarrow> Inl e
      | Inr progress_text \<Rightarrow>
          (case dashboard_enrich_loop lookup rest of
             Inl e \<Rightarrow> Inl e
           | Inr enriched \<Rightarrow> Inr (dashboard_enrich_client lookup client # enriched)))"

definition dashboard_enrich_wifi_devices_with_hostname ::
    "(string \<Rightarrow> exn + string) \<Rightarrow> pydict list \<Rightarrow> exn + pydict list" where
  "dashboard_enrich_wifi_devices_with_hostname lookup clients_list =
     (if clients_list = [] then Inr [] else dashboard_enrich_loop lookup clients_list)"

text \<open>
  \<^verbatim>\<open>get_device_hostname\<close> of the scanner, which stores its answer in a dictionary of
  results under the address. No function of either file calls it.
\<close>

definition get_device_hostname ::
    "(string \<Rightarrow> exn + string) \<Rightarrow> string \<Rightarrow> pydict \<Rightarrow> pydict" where
  "get_device_hostname lookup ip_address results_dict =
     (case lookup ip_address of
        Inr hostname \<Rightarrow> results_dict(ip_address \<mapsto> hostname)
      | Inl e \<Rightarrow>
          (if e = herror then results_dict(ip_address \<mapsto> ''N/A'')
           else results_dict(ip_address \<mapsto> ''Error'')))"

subsection \<open>The Bluetooth scan\<close>

text \<open>
  A discovered device as \<^verbatim>\<open>bleak\<close> reports it: \<^verbatim>\<open>d.name\<close>, which may be \<^verbatim>\<open>None\<close>,
  and \<^verbatim>\<open>d.address\<close>.
\<close>

record BLEDevice =
  name :: "string option"
  address :: string

text \<open>
  The loop of \<^verbatim>\<open>scan_bluetooth_devices\<close>: the test \<^verbatim>\<open>d.name and d.name != "Unknown"\<close>
  fails for \<^verbatim>\<open>None\<close>, for the empty string and for \<^verbatim>\<open>Unknown\<close>.
\<close>

fun bluetooth_loop :: "BLEDevice list \<Rightarrow> pydict list \<Rightarrow> pydict list" where
  "bluetooth_loop [] devices_list = devices_list"
| "bluetooth_loop (d # rest) devices_list =
     (case name d of
        None \<Rightarrow> bluetooth_loop rest devices_list
      | Some n \<Rightarrow>
          (if n \<noteq> [] \<and> n \<noteq> ''Unknown'' then
             bluetooth_loop rest (devices_list @ [[''name'' \<mapsto> n, ''mac'' \<mapsto> address d]])
           else bluetooth_loop rest devices_list))"

text \<open>
  \<^verbatim>\<open>scan_bluetooth_devices\<close>, in both files. The argument is what
  \<^verbatim>\<open>bleak.BleakScanner.discover(timeout=5.0)\<close> gave. \<^verbatim>\<open>BleakError\<close> is caught and
  reported, and the list, still empty, is returned; any other exception leaves the
  function.
\<close>

definition scan_bluetooth_devices :: "exn + BLEDevice list \<Rightarrow> exn + pydict list" where
  "scan_bluetooth_devices discovered =
     (case discovered of
        Inl e \<Rightarrow> (if e = BleakError then Inr [] else Inl e)
      | Inr discovered_devices \<Rightarrow> Inr (bluetooth_loop discovered_devices []))"

subsection \<open>The tables of the scanner\<close>

text \<open>
  \<^verbatim>\<open>ipaddress.ip_address\<close> on the text of an address gives an \<^verbatim>\<open>IPv4Address\<close> or an
  \<^verbatim>\<open>IPv6Address\<close>, each holding the address as a number, or raises \<^verbatim>\<open>ValueError\<close>.
  The IPv4 reading is tried first. The IPv6 reading of the module is an argument here,
  \<open>v6\<close>: the number for a text that is an IPv6 address, and \<open>None\<close> otherwise; every
  statement below holds for whatever that reading is. It is asked only for a text with
  a colon, since the module's reading needs two.
\<close>

datatype ip_key = IPv4Address int | IPv6Address int

fun version :: "ip_key \<Rightarrow> nat" where
  "version (IPv4Address n) = 4"
| "version (IPv6Address n) = 6"

fun key_int :: "ip_key \<Rightarrow> int" where
  "key_int (IPv4Address n) = n"
| "key_int (IPv6Address n) = n"

definition ip_address :: "(string \<Rightarrow> int option) \<Rightarrow> string \<Rightarrow> exn + ip_key" where
  "ip_address v6 s =
     (case ip_int_from_string s of
        Some n \<Rightarrow> Inr (IPv4Address n)
      | None \<Rightarrow>
          (if CHR '':'' \<notin> set s then Inl ValueError
           else (case v6 s of
                   Some n \<Rightarrow> Inr (IPv6Address n)
                 | None \<Rightarrow> Inl ValueError)))"

text \<open>
  The sort keys of the Wi-Fi table, \<^verbatim>\<open>ipaddress.ip_address(x['ip'])\<close>, computed from
  left to right; the first exception ends the computation.
\<close>

fun ip_keys :: "(string \<Rightarrow> int option) \<Rightarrow> pydict list \<Rightarrow> exn + ip_key list" where
  "ip_keys v6 [] = Inr []"
| "ip_keys v6 (x # rest) =
     (case getitem x ''ip'' of
        Inl e \<Rightarrow> Inl e
      | Inr s \<Rightarrow>
          (case ip_address v6 s of
             Inl e \<Rightarrow> Inl e
           | Inr k \<Rightarrow>
               (case ip_keys v6 rest of
                  Inl e \<Rightarrow> Inl e
                | Inr ks \<Rightarrow> Inr (k # ks))))"

text \<open>
  \<^verbatim>\<open>sorted(xs, key=...)\<close> once the keys are known: a stable sort by the key.
\<close>

definition sorted_by :: "'k::linorder list \<Rightarrow> 'a list \<Rightarrow> 'a list" where
  "sorted_by ks xs = map snd (sort_key fst (zip ks xs))"

text \<open>
  Two addresses of one version compare by their numbers; the comparison of an IPv4 with
  an IPv6 address raises \<^verbatim>\<open>TypeError\<close>. A sort cannot place the addresses of one
  version relative to those of the other without comparing across the versions, so
  \<^verbatim>\<open>sorted\<close> raises \<^verbatim>\<open>TypeError\<close> exactly when the keys are of both versions.
\<close>

definition same_version :: "ip_key list \<Rightarrow> bool" where
  "same_version ks =
     (case ks of [] \<Rightarrow> True | k # rest \<Rightarrow> list_all (\<lambda>k'. version k' = version k) rest)"

definition sorted_by_address :: "ip_key list \<Rightarrow> 'a list \<Rightarrow> exn + 'a list" where
  "sorted_by_address ks xs =
     (if same_version ks then Inr (sorted_by (map key_int ks) xs) else Inl TypeError)"

text \<open>
  A row of the Wi-Fi table: the index, the address, the link address and the name cut to
  the width of its column. \<^verbatim>\<open>client.get('name', "N/A")\<close> supplies the default; a missing
  \<^verbatim>\<open>'ip'\<close> or \<^verbatim>\<open>'mac'\<close> raises \<^verbatim>\<open>KeyError\<close>. The padding of the cells and the frame
  of the table are left out.
\<close>

type_synonym row = "nat \<times> string \<times> string \<times> string"

definition name_width :: nat where
  "name_width = 28"

fun wifi_rows :: "nat \<Rightarrow> pydict list \<Rightarrow> exn + row list" where
  "wifi_rows i [] = Inr []"
| "wifi_rows i (client # rest) =
     (case getitem client ''ip'' of
        Inl e \<Rightarrow> Inl e
      | Inr ip_str \<Rightarrow>
          (case getitem client ''mac'' of
             Inl e \<Rightarrow> Inl e
           | Inr mac_str \<Rightarrow>
               (case wifi_rows (i + 1) rest of
                  Inl e \<Rightarrow> Inl e
                | Inr rows \<Rightarrow>
                    Inr ((i + 1, ip_str, mac_str,
                          take name_width (case client ''name'' of None \<Rightarrow> ''N/A'' | Some n \<Rightarrow> n))
                         # rows))))"

text \<open>
  The expression \<^verbatim>\<open>sorted(clients_list, key=lambda x: ipaddress.ip_address(x['ip']))\<close>:
  the keys first, then the sort.
\<close>

definition sorted_clients :: "(string \<Rightarrow> int option) \<Rightarrow> pydict list \<Rightarrow> exn + pydict list" where
  "sorted_clients v6 clients_list =
     (case ip_keys v6 clients_list of
        Inl e \<Rightarrow> Inl e
      | Inr ks \<Rightarrow> sorted_by_address ks clients_list)"

text \<open>
  \<^verbatim>\<open>display_wifi_results\<close>: the rows it prints, in the order it prints them, or the
  exception that leaves it. An empty list prints no row. \<^verbatim>\<open>ValueError\<close> from the sort
  is caught and the list is then printed as it is; any other exception (\<^verbatim>\<open>KeyError\<close>,
  \<^verbatim>\<open>TypeError\<close>) is not caught.
\<close>

definition display_wifi_results :: "(string \<Rightarrow> int option) \<Rightarrow> pydict list \<Rightarrow> exn + row list" where
  "display_wifi_results v6 clients_list =
     (if clients_list = [] then Inr []
      else
        (case sorted_clients v6 clients_list of
           Inl e \<Rightarrow> (if e = ValueError then wifi_rows 0 clients_list else Inl e)
         | Inr sorted_list \<Rightarrow> wifi_rows 0 sorted_list))"

text \<open>
  The keys and the rows of the Bluetooth table: the key is \<^verbatim>\<open>x['name']\<close>, and strings
  compare by code point, character by character, a proper prefix first. A row is the
  index, the name (\<^verbatim>\<open>client['name'] or "N/A"\<close>, cut to the width of its column) and the
  link address.
\<close>

fun name_keys :: "pydict list \<Rightarrow> exn + string list" where
  "name_keys [] = Inr []"
| "name_keys (x # rest) =
     (case getitem x ''name'' of
        Inl e \<Rightarrow> Inl e
      | Inr k \<Rightarrow>
          (case name_keys rest of
             Inl e \<Rightarrow> Inl e
           | Inr ks \<Rightarrow> Inr (k # ks)))"

type_synonym bt_row = "nat \<times> string \<times> string"

fun bluetooth_rows :: "nat \<Rightarrow> pydict list \<Rightarrow> exn + bt_row list" where
  "bluetooth_rows i [] = Inr []"
| "bluetooth_rows i (client # rest) =
     (case getitem client ''name'' of
        Inl e \<Rightarrow> Inl e
      | Inr n \<Rightarrow>
          (case getitem client ''mac'' of
             Inl e \<Rightarrow> Inl e
           | Inr mac_str \<Rightarrow>
               (case bluetooth_rows (i + 1) rest of
                  Inl e \<Rightarrow> Inl e
                | Inr rows \<Rightarrow>
                    Inr ((i + 1, take name_width (if n = [] then ''N/A'' else n), mac_str)
                         # rows))))"

definition display_bluetooth_results :: "pydict list \<Rightarrow> exn + bt_row list" where
  "display_bluetooth_results clients_list =
     (if clients_list = [] then Inr []
      else
        (case name_keys clients_list of
           Inl e \<Rightarrow> Inl e
         | Inr ks \<Rightarrow> bluetooth_rows 0 (sorted_by ks clients_list)))"

subsection \<open>The tables of the dashboard\<close>

text \<open>
  The dashboard builds a \<^verbatim>\<open>pandas.DataFrame\<close> from the list of dictionaries, selects
  the columns with \<^verbatim>\<open>reindex\<close> and hands the frame to \<^verbatim>\<open>st.dataframe\<close>: one row for
  every dictionary, in the order of the list, a cell being empty where the key is
  missing. Nothing is sorted.
\<close>

definition dashboard_wifi_table ::
    "pydict list \<Rightarrow> (string option \<times> string option \<times> string option) list" where
  "dashboard_wifi_table wifi_results =
     map (\<lambda>d. (d ''ip'', d ''mac'', d ''name'')) wifi_results"

definition dashboard_bluetooth_table ::
    "pydict list \<Rightarrow> (string option \<times> string option) list" where
  "dashboard_bluetooth_table bt_results =
     map (\<lambda>d. (d ''name'', d ''mac'')) bt_results"

subsection \<open>The world outside, and what a run does to it\<close>

text \<open>
  What one run can observe of the world: the platform, the two privilege calls, the
  output of \<^verbatim>\<open>ipconfig\<close>, the answers to an ARP broadcast over a range, reverse DNS and
  the Bluetooth discovery. The IPv6 reading of the module \<^verbatim>\<open>ipaddress\<close>, which the
  model takes as given, travels with them.
\<close>

record world =
  platform_system :: string
  IsUserAnAdmin :: "exn + int"
  geteuid :: "exn + int"
  ipconfig :: "exn + string"
  srp :: "string \<Rightarrow> exn + answered"
  gethostbyaddr :: "string \<Rightarrow> exn + string"
  discover :: "exn + BLEDevice list"
  ip6_int_from_string :: "string \<Rightarrow> int option"

text \<open>
  The calls a run makes to the world, in the order it makes them. Frames are sent only
  inside \<^verbatim>\<open>srp\<close>.
\<close>

datatype event =
    Call_is_admin
  | Call_ipconfig
  | Call_srp string
  | Call_gethostbyaddr string
  | Call_discover

text \<open>The reverse lookups of the enrichment step: one for every client with an address.\<close>

definition lookups :: "pydict list \<Rightarrow> event list" where
  "lookups clients_list =
     List.map_filter (\<lambda>client. map_option Call_gethostbyaddr (client ''ip'')) clients_list"

text \<open>
  How \<^verbatim>\<open>main\<close> of the scanner ends: \<^verbatim>\<open>sys.exit\<close> with a status, an exception that
  nothing catches, or the two tables printed.
\<close>

datatype outcome =
    SysExit int
  | Raised exn
  | Finished "row list" "bt_row list"

text \<open>
  \<^verbatim>\<open>main\<close> of the scanner: the administrator check; the range, which is looked for on
  Windows only; the ARP scan; the host names; the Bluetooth scan; the two tables.
\<close>

definition main :: "world \<Rightarrow> event list \<times> outcome" where
  "main w =
     (if \<not> is_admin (platform_system w) (IsUserAnAdmin w) (geteuid w) then
        ([Call_is_admin], SysExit 1)
      else
        let (range_events, target_range) =
              (if platform_system w = ''Windows''
               then ([Call_ipconfig], get_local_network_range_windows (ipconfig w))
               else ([], None))
        in
          (case target_range of
             None \<Rightarrow> (Call_is_admin # range_events, SysExit 1)
           | Some r \<Rightarrow>
               if r = [] then (Call_is_admin # range_events, SysExit 1)
               else
                 let wifi_devices = scan_wifi_network (srp w r);
                     enriched_wifi_devices =
                       enrich_wifi_devices_with_hostname (gethostbyaddr w) wifi_devices;
                     events = Call_is_admin # range_events @ [Call_srp r]
                              @ lookups wifi_devices @ [Call_discover]
                 in
                   (case scan_bluetooth_devices (discover w) of
                      Inl e \<Rightarrow> (events, Raised e)
                    | Inr bluetooth_devices \<Rightarrow>
                        (case display_wifi_results (ip6_int_from_string w)
                                enriched_wifi_devices of
                           Inl e \<Rightarrow> (events, Raised e)
                         | Inr wifi_table \<Rightarrow>
                             (case display_bluetooth_results bluetooth_devices of
                                Inl e \<Rightarrow> (events, Raised e)
                              | Inr bluetooth_table \<Rightarrow>
                                  (events, Finished wifi_table bluetooth_table))))))"

subsection \<open>The dashboard\<close>

text \<open>
  The state that outlives one execution of the script: the three entries of
  \<^verbatim>\<open>st.session_state\<close>, and the cache that \<^verbatim>\<open>@st.cache_data(ttl=600)\<close> puts in front
  of \<^verbatim>\<open>get_local_network_range_windows\<close>. The function has no argument, so the cache
  holds at most one entry: the value returned (which may be \<^verbatim>\<open>None\<close>) and the time, in
  seconds, at which it was stored.
\<close>

record app_state =
  scan_run :: bool
  wifi_results :: "pydict list"
  bt_results :: "pydict list"
  range_cache :: "(nat \<times> string option) option"

definition initial_state :: app_state where
  "initial_state =
     \<lparr>scan_run = False, wifi_results = [], bt_results = [], range_cache = None\<rparr>"

definition ttl :: nat where
  "ttl = 600"

text \<open>
  A call of the cached function at the time \<open>now\<close>: an entry younger than the time to
  live is returned without running the function; otherwise the function runs and its
  result is stored.
\<close>

definition cached_get_local_network_range_windows ::
    "nat \<Rightarrow> exn + string \<Rightarrow> (nat \<times> string option) option
       \<Rightarrow> event list \<times> string option \<times> (nat \<times> string option) option" where
  "cached_get_local_network_range_windows now run cache =
     (case cache of
        None \<Rightarrow>
          ([Call_ipconfig], get_local_network_range_windows run,
           Some (now, get_local_network_range_windows run))
      | Some (stored, v) \<Rightarrow>
          if now < stored + ttl then ([], v, cache)
          else
            ([Call_ipconfig], get_local_network_range_windows run,
             Some (now, get_local_network_range_windows run)))"

text \<open>
  How the handler of the button \<^verbatim>\<open>Start Full Network Scan\<close> ends: \<^verbatim>\<open>st.stop()\<close>, an
  exception that nothing catches, or \<^verbatim>\<open>st.rerun()\<close>, which shows the results. The button
  is drawn only while \<^verbatim>\<open>scan_run\<close> is false.
\<close>

datatype handler_end =
    NotDrawn
  | Stop
  | Uncaught exn
  | Rerun

definition click_start :: "world \<Rightarrow> nat \<Rightarrow> app_state \<Rightarrow> event list \<times> handler_end \<times> app_state" where
  "click_start w now st =
     (if scan_run st then ([], NotDrawn, st)
      else if \<not> is_admin (platform_system w) (IsUserAnAdmin w) (geteuid w) then
        ([Call_is_admin], Stop, st\<lparr>scan_run := False\<rparr>)
      else
        let (range_events, target_range, cache) =
              cached_get_local_network_range_windows now (ipconfig w) (range_cache st);
            st1 = st\<lparr>scan_run := True, range_cache := cache\<rparr>
        in
          (case target_range of
             None \<Rightarrow> (Call_is_admin # range_events, Stop, st1)
           | Some r \<Rightarrow>
               if r = [] then (Call_is_admin # range_events, Stop, st1)
               else
                 let wifi_devices = scan_wifi_network (srp w r) in
                   (case dashboard_enrich_wifi_devices_with_hostname (gethostbyaddr w)
                           wifi_devices of
                      Inl e \<Rightarrow>
                        (Call_is_admin # range_events @ [Call_srp r]
                           @ lookups (takeWhile (\<lambda>client. client ''ip'' \<noteq> None) wifi_devices),
                         Uncaught e, st1)
                    | Inr enriched_wifi \<Rightarrow>
                        let st2 = st1\<lparr>wifi_results := enriched_wifi\<rparr>;
                            events = Call_is_admin # range_events @ [Call_srp r]
                                     @ lookups wifi_devices @ [Call_discover]
                        in
                          (case scan_bluetooth_devices (discover w) of
                             Inl e \<Rightarrow> (events, Uncaught e, st2)
                           | Inr bluetooth_devices \<Rightarrow>
                               (events, Rerun, st2\<lparr>bt_results := bluetooth_devices\<rparr>)))))"

text \<open>
  The handler of the button \<^verbatim>\<open>Scan Again\<close>, drawn only while \<^verbatim>\<open>scan_run\<close> is true.
\<close>

definition click_scan_again :: "app_state \<Rightarrow> app_state" where
  "click_scan_again st =
     (if scan_run st then st\<lparr>scan_run := False, wifi_results := [], bt_results := []\<rparr>
      else st)"

subsection \<open>Notions of the specification\<close>

text \<open>
  The entry that the specification asks for an advertisement: none for a name that is
  absent, empty or the placeholder \<^verbatim>\<open>Unknown\<close>, and otherwise the name with the link
  address.
\<close>

definition advertisement_entry :: "BLEDevice \<Rightarrow> pydict option" where
  "advertisement_entry d =
     (case name d of
        None \<Rightarrow> None
      | Some n \<Rightarrow>
          (if n = [] \<or> n = ''Unknown'' then None
           else Some [''name'' \<mapsto> n, ''mac'' \<mapsto> address d]))"

text \<open>The entry of the scan for one answer: the source address and the link address.\<close>

definition client_dict :: "arp_packet \<times> arp_packet \<Rightarrow> pydict" where
  "client_dict element = [''ip'' \<mapsto> psrc (snd element), ''mac'' \<mapsto> hwsrc (snd element)]"

text \<open>
  The name that the specification asks for a host: the host name when the lookup of
  its address succeeds, and otherwise the sentinel.
\<close>

definition resolved_name :: "(string \<Rightarrow> exn + string) \<Rightarrow> pydict \<Rightarrow> string" where
  "resolved_name lookup client =
     (case client ''ip'' of
        None \<Rightarrow> ''N/A''
      | Some a \<Rightarrow> (case lookup a of Inl e \<Rightarrow> ''N/A'' | Inr hostname \<Rightarrow> hostname))"

text \<open>
  A list of address texts is in numeric order when, of any two of its valid IPv4
  addresses, the earlier is not greater than the later. (Other texts are passed over.)
\<close>

definition address_ordered :: "string list \<Rightarrow> bool" where
  "address_ordered ips =
     sorted_wrt (\<lambda>a b. case (ip_int_from_string a, ip_int_from_string b) of
                          (Some x, Some y) \<Rightarrow> x \<le> y
                        | _ \<Rightarrow> True) ips"

text \<open>The number of the address that a text denotes, if it denotes one.\<close>

definition address_number :: "(string \<Rightarrow> int option) \<Rightarrow> string \<Rightarrow> int option" where
  "address_number v6 s = (case ip_address v6 s of Inl e \<Rightarrow> None | Inr k \<Rightarrow> Some (key_int k))"


text \<open>
  A dictionary has the address key \<open>k\<close>, the address number \<open>n\<close>, or the name key
  \<open>n\<close>: what the key functions of the two sorts compute for it. \<open>shown_name\<close> is the
  name as the Bluetooth table prints it.
\<close>

definition has_ip_key :: "(string \<Rightarrow> int option) \<Rightarrow> pydict \<Rightarrow> ip_key \<Rightarrow> bool" where
  "has_ip_key v6 c k =
     (case c ''ip'' of None \<Rightarrow> False | Some s \<Rightarrow> ip_address v6 s = Inr k)"

definition has_address_number :: "(string \<Rightarrow> int option) \<Rightarrow> pydict \<Rightarrow> int \<Rightarrow> bool" where
  "has_address_number v6 c n =
     (case c ''ip'' of None \<Rightarrow> False | Some s \<Rightarrow> address_number v6 s = Some n)"

definition has_name_key :: "pydict \<Rightarrow> string \<Rightarrow> bool" where
  "has_name_key c n = (c ''name'' = Some n)"

definition shown_name :: "string \<Rightarrow> string" where
  "shown_name n = take name_width (if n = [] then ''N/A'' else n)"

text \<open>
  The dashboard is idle when no scan has run and no results are stored. The entry of
  the cache is fresh at the time \<open>now\<close> when it is younger than the time to live. What
  a run shows of itself: its calls, how it ends, and the session state it leaves.
\<close>

definition idle :: "app_state \<Rightarrow> bool" where
  "idle st = (\<not> scan_run st \<and> wifi_results st = [] \<and> bt_results st = [])"

definition cache_fresh :: "nat \<Rightarrow> (nat \<times> string option) option \<Rightarrow> bool" where
  "cache_fresh now cache =
     (case cache of None \<Rightarrow> False | Some (stored, v) \<Rightarrow> now < stored + ttl)"

definition observable ::
    "event list \<times> handler_end \<times> app_state
       \<Rightarrow> event list \<times> handler_end \<times> bool \<times> pydict list \<times> pydict list" where
  "observable run =
     (fst run, fst (snd run), scan_run (snd (snd run)),
      wifi_results (snd (snd run)), bt_results (snd (snd run)))"

text \<open>
  An address, as a number, is in the link-local range \<^verbatim>\<open>169.254.0.0/16\<close> when its upper
  sixteen bits are those of \<^verbatim>\<open>169.254\<close>.
\<close>

definition link_local :: "int \<Rightarrow> bool" where
  "link_local a = (a div 65536 = 169 * 256 + 254)"

subsection \<open>Concrete inputs\<close>

text \<open>
  The two hosts and the resolver of the end-to-end example of the specification: the
  lookup of the first address succeeds, every other lookup times out.
\<close>

definition host1 :: pydict where
  "host1 = [''ip'' \<mapsto> ''10.0.0.1'', ''mac'' \<mapsto> ''aa:bb:cc:dd:ee:ff'']"

definition host2 :: pydict where
  "host2 = [''ip'' \<mapsto> ''10.0.0.2'', ''mac'' \<mapsto> ''11:22:33:44:55:66'']"

definition dns1 :: "string \<Rightarrow> exn + string" where
  "dns1 a = (if a = ''10.0.0.1'' then Inr ''router.local'' else Inl timeout)"

text \<open>
  An IPv6 reading for the examples, right on the two texts it knows: \<^verbatim>\<open>::1\<close> is the
  address 1 and \<^verbatim>\<open>::2\<close> the address 2.
\<close>

definition example_ip6 :: "string \<Rightarrow> int option" where
  "example_ip6 s = (if s = ''::1'' then Some 1 else if s = ''::2'' then Some 2 else None)"

text \<open>A dictionary without the key \<^verbatim>\<open>ip\<close>.\<close>

definition no_ip_host :: pydict where
  "no_ip_host = [''mac'' \<mapsto> ''ee:ee:ee:ee:ee:ee'']"

text \<open>Two answers that carry the same source address and different link addresses.\<close>

definition duplicate_answers :: answered where
  "duplicate_answers =
     [(\<lparr>psrc = ''10.0.0.5'', hwsrc = ''00:00:00:00:00:05''\<rparr>,
       \<lparr>psrc = ''10.0.0.7'', hwsrc = ''aa:aa:aa:aa:aa:aa''\<rparr>),
      (\<lparr>psrc = ''10.0.0.5'', hwsrc = ''00:00:00:00:00:05''\<rparr>,
       \<lparr>psrc = ''10.0.0.7'', hwsrc = ''bb:bb:bb:bb:bb:bb''\<rparr>)]"

text \<open>
  The world of the end-to-end example of the specification, on Windows and with
  administrator rights: one interface \<^verbatim>\<open>10.0.0.5\<close> with mask \<^verbatim>\<open>255.255.255.0\<close>, two
  hosts that answer (the second address first), the resolver \<open>dns1\<close> and one Bluetooth
  device.
\<close>

definition example_answers :: answered where
  "example_answers =
     [(\<lparr>psrc = ''10.0.0.5'', hwsrc = ''00:00:00:00:00:05''\<rparr>,
       \<lparr>psrc = ''10.0.0.2'', hwsrc = ''11:22:33:44:55:66''\<rparr>),
      (\<lparr>psrc = ''10.0.0.5'', hwsrc = ''00:00:00:00:00:05''\<rparr>,
       \<lparr>psrc = ''10.0.0.1'', hwsrc = ''aa:bb:cc:dd:ee:ff''\<rparr>)]"

definition example_world :: world where
  "example_world =
     \<lparr>platform_system = ''Windows'',
      IsUserAnAdmin = Inr 1,
      geteuid = Inl OSError,
      ipconfig = Inr ''IPv4 Address. . . : 10.0.0.5  Subnet Mask . . . : 255.255.255.0'',
      srp = (\<lambda>r. if r = ''10.0.0.0/24'' then Inr example_answers else Inr []),
      gethostbyaddr = dns1,
      discover = Inr [\<lparr>name = Some ''Speaker'', address = ''00:11:22:33:44:55''\<rparr>],
      ip6_int_from_string = example_ip6\<rparr>"

text \<open>
  A snapshot of the example as the enrichment step leaves it (the second address
  answered first), a list with an address that is not valid, and two Bluetooth devices
  whose names differ in the case of the first letter.
\<close>

definition example_wifi_results :: "pydict list" where
  "example_wifi_results =
     [host2(''name'' \<mapsto> ''N/A''), host1(''name'' \<mapsto> ''router.local'')]"

definition invalid_wifi_results :: "pydict list" where
  "invalid_wifi_results =
     [host2(''name'' \<mapsto> ''N/A''), host1(''name'' \<mapsto> ''router.local''),
      [''ip'' \<mapsto> ''10.0.0.300'', ''mac'' \<mapsto> ''cc:cc:cc:cc:cc:cc'', ''name'' \<mapsto> ''N/A'']]"

text \<open>Two hosts with IPv6 addresses, and a list that mixes the two versions.\<close>

definition ipv6_wifi_results :: "pydict list" where
  "ipv6_wifi_results =
     [[''ip'' \<mapsto> ''::2'', ''mac'' \<mapsto> ''22:22:22:22:22:22'', ''name'' \<mapsto> ''N/A''],
      [''ip'' \<mapsto> ''::1'', ''mac'' \<mapsto> ''11:11:11:11:11:11'', ''name'' \<mapsto> ''N/A'']]"

definition mixed_wifi_results :: "pydict list" where
  "mixed_wifi_results =
     [host1(''name'' \<mapsto> ''router.local''),
      [''ip'' \<mapsto> ''::1'', ''mac'' \<mapsto> ''11:11:11:11:11:11'', ''name'' \<mapsto> ''N/A'']]"

definition example_bt_results :: "pydict list" where
  "example_bt_results =
     [[''name'' \<mapsto> ''lamp'', ''mac'' \<mapsto> ''00:11:22:33:44:66''],
      [''name'' \<mapsto> ''Speaker'', ''mac'' \<mapsto> ''00:11:22:33:44:55'']]"

text \<open>
  A second world: the machine has moved to the network \<^verbatim>\<open>192.168.1.0/24\<close>, where one
  host answers. \<open>after_first_run\<close> is the state of the dashboard after a run in the
  first world at time 0 and a click on \<^verbatim>\<open>Scan Again\<close>.
\<close>

definition moved_world :: world where
  "moved_world =
     \<lparr>platform_system = ''Windows'',
      IsUserAnAdmin = Inr 1,
      geteuid = Inl OSError,
      ipconfig = Inr ''IPv4 Address. . . : 192.168.1.42  Subnet Mask . . . : 255.255.255.0'',
      srp = (\<lambda>r. if r = ''192.168.1.0/24''
                  then Inr [(\<lparr>psrc = ''192.168.1.42'', hwsrc = ''00:00:00:00:00:05''\<rparr>,
                             \<lparr>psrc = ''192.168.1.1'', hwsrc = ''dd:dd:dd:dd:dd:dd''\<rparr>)]
                  else Inr []),
      gethostbyaddr = dns1,
      discover = Inr [],
      ip6_int_from_string = example_ip6\<rparr>"

definition after_first_run :: app_state where
  "after_first_run = click_scan_again (snd (snd (click_start example_world 0 initial_state)))"

text \<open>
  Three outputs of \<^verbatim>\<open>ipconfig\<close>: an adapter with an automatic link-local address
  followed by a configured adapter; the link-local adapter alone; and an output whose
  first address has an octet above 255.
\<close>

definition ipconfig_two_adapters :: string where
  "ipconfig_two_adapters =
     ''Ethernet adapter Ethernet:'' @ [CHR 0x0A] @
     ''   Autoconfiguration IPv4 Address. . : 169.254.1.5'' @ [CHR 0x0A] @
     ''   Subnet Mask . . . . . . . . . . . : 255.255.0.0'' @ [CHR 0x0A] @
     ''Wireless LAN adapter Wi-Fi:'' @ [CHR 0x0A] @
     ''   IPv4 Address. . . . . . . . . . . : 192.168.1.42'' @ [CHR 0x0A] @
     ''   Subnet Mask . . . . . . . . . . . : 255.255.255.0'' @ [CHR 0x0A]"

definition ipconfig_link_local_only :: string where
  "ipconfig_link_local_only =
     ''Ethernet adapter Ethernet:'' @ [CHR 0x0A] @
     ''   Autoconfiguration IPv4 Address. . : 169.254.1.5'' @ [CHR 0x0A] @
     ''   Subnet Mask . . . . . . . . . . . : 255.255.0.0'' @ [CHR 0x0A]"

definition ipconfig_unparsable :: string where
  "ipconfig_unparsable =
     ''   IPv4 Address. . . . . . . . . . . : 10.0.0.300'' @ [CHR 0x0A] @
     ''   Subnet Mask . . . . . . . . . . . : 255.255.255.0'' @ [CHR 0x0A] @
     ''   IPv4 Address. . . . . . . . . . . : 192.168.1.42'' @ [CHR 0x0A] @
     ''   Subnet Mask . . . . . . . . . . . : 255.255.255.0'' @ [CHR 0x0A]"

section \<open>Properties\<close>

subsection \<open>The loops as maps\<close>

lemma bluetooth_loop_map_filter:
  "bluetooth_loop ds devices_list = devices_list @ List.map_filter advertisement_entry ds"
  by (induction ds arbitrary: devices_list)
     (auto simp: advertisement_entry_def split: option.splits)

lemma wifi_loop_map:
  "wifi_loop answered_list clients_list = clients_list @ map client_dict answered_list"
  by (induction answered_list arbitrary: clients_list) (simp_all add: client_dict_def)

lemma scan_wifi_network_map:
  "scan_wifi_network (Inr answered_list) = map client_dict answered_list"
  by (simp add: scan_wifi_network_def wifi_loop_map)

lemma enrich_client_name:
  "enrich_client lookup client = client(''name'' \<mapsto> resolved_name lookup client)"
  by (simp add: enrich_client_def resolved_name_def getitem_def split: option.splits sum.splits)

lemma dashboard_enrich_client_name:
  "dashboard_enrich_client lookup client = client(''name'' \<mapsto> resolved_name lookup client)"
  by (simp add: dashboard_enrich_client_def resolved_name_def getitem_def
           split: option.splits sum.splits)

lemma enrich_loop_map:
  "enrich_loop lookup cs = map (\<lambda>c. c(''name'' \<mapsto> resolved_name lookup c)) cs"
  by (induction cs) (simp_all add: enrich_client_name fun_upd_def)

lemma enrich_map:
  "enrich_wifi_devices_with_hostname lookup cs =
     map (\<lambda>c. c(''name'' \<mapsto> resolved_name lookup c)) cs"
  by (simp add: enrich_wifi_devices_with_hostname_def enrich_loop_map)

lemma dashboard_enrich_loop_map:
  "\<forall>c \<in> set cs. c ''ip'' \<noteq> None \<Longrightarrow>
     dashboard_enrich_loop lookup cs
       = Inr (map (\<lambda>c. c(''name'' \<mapsto> resolved_name lookup c)) cs)"
  by (induction cs) (auto simp: dashboard_enrich_client_name getitem_def fun_upd_def)

lemma dashboard_enrich_map:
  "\<forall>c \<in> set cs. c ''ip'' \<noteq> None \<Longrightarrow>
     dashboard_enrich_wifi_devices_with_hostname lookup cs
       = Inr (enrich_wifi_devices_with_hostname lookup cs)"
  by (simp add: dashboard_enrich_wifi_devices_with_hostname_def dashboard_enrich_loop_map
        enrich_map)

lemma dashboard_enrich_loop_KeyError:
  "\<not> (\<forall>c \<in> set cs. c ''ip'' \<noteq> None) \<Longrightarrow> dashboard_enrich_loop lookup cs = Inl KeyError"
proof (induction cs)
  case Nil
  then show ?case by simp
next
  case (Cons c cs)
  show ?case
  proof (cases "c ''ip''")
    case None
    then show ?thesis
      by (simp add: dashboard_enrich_client_name getitem_def)
  next
    case (Some s)
    with Cons.prems have "\<not> (\<forall>c \<in> set cs. c ''ip'' \<noteq> None)" by auto
    from Cons.IH [OF this] Some show ?thesis
      by (simp add: dashboard_enrich_client_name getitem_def)
  qed
qed

lemma dashboard_enrich_KeyError:
  "\<not> (\<forall>c \<in> set cs. c ''ip'' \<noteq> None) \<Longrightarrow>
     dashboard_enrich_wifi_devices_with_hostname lookup cs = Inl KeyError"
  by (auto simp: dashboard_enrich_wifi_devices_with_hostname_def dashboard_enrich_loop_KeyError)
subsection \<open>The Bluetooth scan keeps the usable names\<close>

text \<open>
  Claim C6. For every list of discovered devices, the result of the Bluetooth scan has
  an entry exactly for the advertisements with a usable name, in the order of
  discovery: an advertisement whose name is absent, empty or \<^verbatim>\<open>Unknown\<close> gives no
  entry, every other one gives the entry with its name and its link address.
\<close>

theorem C6_bluetooth_entries_exactly_usable_names:
  "scan_bluetooth_devices (Inr ds) = Inr (List.map_filter advertisement_entry ds)"
  by (simp add: scan_bluetooth_devices_def bluetooth_loop_map_filter)

theorem C6_bluetooth_entries_witness:
  "scan_bluetooth_devices
     (Inr [\<lparr>name = Some ''Speaker'', address = ''00:11:22:33:44:55''\<rparr>,
           \<lparr>name = None, address = ''00:11:22:33:44:56''\<rparr>,
           \<lparr>name = Some '''', address = ''00:11:22:33:44:57''\<rparr>,
           \<lparr>name = Some ''Unknown'', address = ''00:11:22:33:44:58''\<rparr>])
   = Inr [[''name'' \<mapsto> ''Speaker'', ''mac'' \<mapsto> ''00:11:22:33:44:55'']]"
  using C6_bluetooth_entries_exactly_usable_names
    [of "[\<lparr>name = Some ''Speaker'', address = ''00:11:22:33:44:55''\<rparr>,
           \<lparr>name = None, address = ''00:11:22:33:44:56''\<rparr>,
           \<lparr>name = Some '''', address = ''00:11:22:33:44:57''\<rparr>,
           \<lparr>name = Some ''Unknown'', address = ''00:11:22:33:44:58''\<rparr>]"]
  by (simp add: advertisement_entry_def)

subsection \<open>The enrichment step\<close>

text \<open>
  Claim C10. For every list of hosts, the enrichment step returns a list of the same
  length whose entries, in the same order, agree with the input on every key other
  than \<^verbatim>\<open>name\<close> (so the address and the link address are unchanged); the name of each
  entry is set to the host name or to \<^verbatim>\<open>N/A\<close>; the empty list gives the empty list.
  The function of the dashboard returns the same list as the function of the scanner
  whenever every host has an address.
\<close>

theorem C10_enrichment_frame:
  "length (enrich_wifi_devices_with_hostname lookup cs) = length cs
   \<and> (\<forall>i < length cs. \<forall>k. k \<noteq> ''name'' \<longrightarrow>
          (enrich_wifi_devices_with_hostname lookup cs ! i) k = (cs ! i) k)
   \<and> (\<forall>i < length cs.
          (enrich_wifi_devices_with_hostname lookup cs ! i) ''name''
            = Some (resolved_name lookup (cs ! i)))
   \<and> enrich_wifi_devices_with_hostname lookup [] = []
   \<and> dashboard_enrich_wifi_devices_with_hostname lookup [] = Inr []
   \<and> ((\<forall>c \<in> set cs. c ''ip'' \<noteq> None)
        \<longrightarrow> dashboard_enrich_wifi_devices_with_hostname lookup cs
              = Inr (enrich_wifi_devices_with_hostname lookup cs))"
  by (simp add: dashboard_enrich_map) (simp add: enrich_map
        dashboard_enrich_wifi_devices_with_hostname_def)

theorem C10_enrichment_frame_witness:
  "length (enrich_wifi_devices_with_hostname dns1 [host1, host2]) = 2
   \<and> (enrich_wifi_devices_with_hostname dns1 [host1, host2] ! 1) ''ip'' = Some ''10.0.0.2''
   \<and> (enrich_wifi_devices_with_hostname dns1 [host1, host2] ! 1) ''mac''
        = Some ''11:22:33:44:55:66''
   \<and> (enrich_wifi_devices_with_hostname dns1 [host1, host2] ! 0) ''name''
        = Some ''router.local''
   \<and> (enrich_wifi_devices_with_hostname dns1 [host1, host2] ! 1) ''name'' = Some ''N/A''
   \<and> dashboard_enrich_wifi_devices_with_hostname dns1 [host1, host2]
        = Inr (enrich_wifi_devices_with_hostname dns1 [host1, host2])"
  using C10_enrichment_frame [of dns1 "[host1, host2]"]
  by (simp add: host1_def host2_def dns1_def resolved_name_def nth_Cons')

text \<open>
  What the dashboard's function does with a host that has no address: the read of
  \<^verbatim>\<open>client['ip']\<close> for the progress bar raises \<^verbatim>\<open>KeyError\<close>. (The scan gives every
  host an address.)
\<close>

lemma dashboard_enrich_no_ip_host:
  "dashboard_enrich_wifi_devices_with_hostname dns1 [host1, no_ip_host, host2] = Inl KeyError"
  by (rule dashboard_enrich_KeyError) (simp add: no_ip_host_def)

text \<open>
  Claim C3, as stated: no failure of a lookup is ever recorded as anything but
  \<^verbatim>\<open>N/A\<close>. It fails for \<^verbatim>\<open>get_device_hostname\<close>, a function of the scanner that the
  claim cites: a lookup that times out is recorded as \<^verbatim>\<open>Error\<close>.
\<close>

theorem C3_counterexample:
  "dns1 ''10.0.0.2'' = Inl timeout
   \<and> get_device_hostname dns1 ''10.0.0.2'' Map.empty ''10.0.0.2'' = Some ''Error''"
  by (simp add: dns1_def get_device_hostname_def)

text \<open>
  Claim C3, amended. When the reverse lookup of an address fails, with whatever
  exception (name not found, timed out, or any other), the enrichment step of the
  scanner sets the name of every host with that address to exactly \<^verbatim>\<open>N/A\<close>, and so
  does the enrichment step of the dashboard for a list in which every host has an
  address. The function \<^verbatim>\<open>get_device_hostname\<close>, which the program never calls,
  records \<^verbatim>\<open>N/A\<close> for \<^verbatim>\<open>socket.herror\<close> and \<^verbatim>\<open>Error\<close> for every other exception.
\<close>

theorem C3_failed_lookup_values:
  assumes "lookup a = Inl e"
  shows "(\<forall>i < length cs. (cs ! i) ''ip'' = Some a
            \<longrightarrow> (enrich_wifi_devices_with_hostname lookup cs ! i) ''name'' = Some ''N/A'')
       \<and> ((\<forall>c \<in> set cs. c ''ip'' \<noteq> None)
            \<longrightarrow> (\<exists>enriched.
                   dashboard_enrich_wifi_devices_with_hostname lookup cs = Inr enriched
                   \<and> (\<forall>i < length cs. (cs ! i) ''ip'' = Some a
                         \<longrightarrow> (enriched ! i) ''name'' = Some ''N/A'')))
       \<and> get_device_hostname lookup a results_dict a
            = Some (if e = herror then ''N/A'' else ''Error'')"
proof -
  have scanner: "\<forall>i < length cs. (cs ! i) ''ip'' = Some a
      \<longrightarrow> (enrich_wifi_devices_with_hostname lookup cs ! i) ''name'' = Some ''N/A''"
    using assms by (simp add: enrich_map resolved_name_def)
  have helper: "get_device_hostname lookup a results_dict a
                  = Some (if e = herror then ''N/A'' else ''Error'')"
    using assms by (simp add: get_device_hostname_def)
  from scanner helper show ?thesis
    by (simp add: dashboard_enrich_map)
qed

theorem C3_failed_lookup_values_witness:
  "(enrich_wifi_devices_with_hostname dns1 [host1, host2] ! 1) ''name'' = Some ''N/A''
   \<and> (\<exists>enriched.
         dashboard_enrich_wifi_devices_with_hostname dns1 [host1, host2] = Inr enriched
         \<and> (enriched ! 1) ''name'' = Some ''N/A'')
   \<and> get_device_hostname dns1 ''10.0.0.2'' Map.empty ''10.0.0.2'' = Some ''Error''"
proof -
  have a: "dns1 ''10.0.0.2'' = Inl timeout"
    by (simp add: dns1_def)
  have b: "\<forall>c \<in> set [host1, host2]. c ''ip'' \<noteq> None"
    and c: "([host1, host2] ! 1) ''ip'' = Some ''10.0.0.2''"
    by (simp_all add: host1_def host2_def)
  have d: "(1::nat) < length [host1, host2]"
    by simp
  note t = C3_failed_lookup_values
             [where lookup = dns1 and a = "''10.0.0.2''" and e = timeout
                and cs = "[host1, host2]" and results_dict = Map.empty, OF a]
  from t have "\<forall>i < length [host1, host2]. ([host1, host2] ! i) ''ip'' = Some ''10.0.0.2''
            \<longrightarrow> (enrich_wifi_devices_with_hostname dns1 [host1, host2] ! i) ''name''
                  = Some ''N/A''"
    by blast
  with c d have first: "(enrich_wifi_devices_with_hostname dns1 [host1, host2] ! 1) ''name''
                  = Some ''N/A''"
    by blast
  from t b obtain enriched where
    e: "dashboard_enrich_wifi_devices_with_hostname dns1 [host1, host2] = Inr enriched"
    and "\<forall>i < length [host1, host2]. ([host1, host2] ! i) ''ip'' = Some ''10.0.0.2''
            \<longrightarrow> (enriched ! i) ''name'' = Some ''N/A''"
    by blast
  with c d have "(enriched ! 1) ''name'' = Some ''N/A''"
    by blast
  with e have second: "\<exists>enriched.
         dashboard_enrich_wifi_devices_with_hostname dns1 [host1, host2] = Inr enriched
         \<and> (enriched ! 1) ''name'' = Some ''N/A''"
    by blast
  from t have third: "get_device_hostname dns1 ''10.0.0.2'' Map.empty ''10.0.0.2''
                        = Some ''Error''"
    by simp
  from first second third show ?thesis
    by blast
qed
subsection \<open>The ARP scan keeps every answer\<close>

lemma client_dict_ip: "client_dict element ''ip'' = Some (psrc (snd element))"
  by (simp add: client_dict_def)

lemma client_dict_mac: "client_dict element ''mac'' = Some (hwsrc (snd element))"
  by (simp add: client_dict_def)

text \<open>
  Claim C2, as stated: the result of the scan has at most one entry for an address, and
  of several answers with the same address the last one is kept. It fails for two
  answers with the same source address: both entries are in the result, the first one
  included.
\<close>

theorem C2_counterexample:
  "\<not> distinct (map (\<lambda>d. d ''ip'') (scan_wifi_network (Inr duplicate_answers)))
   \<and> map (\<lambda>d. d ''mac'') (scan_wifi_network (Inr duplicate_answers))
       = [Some ''aa:aa:aa:aa:aa:aa'', Some ''bb:bb:bb:bb:bb:bb'']"
  by (simp add: scan_wifi_network_def duplicate_answers_def)

text \<open>
  Claim C2, amended. The result of the scan has one entry for every element of the
  answered list that \<^verbatim>\<open>srp\<close> returns, in the same order, with the source address and
  the link address of the answer; nothing is removed, so the addresses of the result are
  distinct exactly when the source addresses of the answers are. When \<^verbatim>\<open>srp\<close> raises,
  the result is empty.
\<close>

theorem C2_scan_one_entry_per_answer:
  "scan_wifi_network (Inr answered_list) = map client_dict answered_list
   \<and> (distinct (map (\<lambda>d. d ''ip'') (scan_wifi_network (Inr answered_list)))
        \<longleftrightarrow> distinct (map (\<lambda>element. psrc (snd element)) answered_list))
   \<and> scan_wifi_network (Inl e) = []"
proof -
  have a: "map (\<lambda>d. d ''ip'') (scan_wifi_network (Inr answered_list))
          = map Some (map (\<lambda>element. psrc (snd element)) answered_list)"
    by (simp add: scan_wifi_network_map client_dict_ip)
  have b: "distinct (map Some ys) = distinct ys" for ys :: "string list"
    by (simp add: distinct_map)
  have c: "scan_wifi_network (Inl e) = []"
    by (simp add: scan_wifi_network_def)
  show ?thesis
    unfolding a b using c by (simp add: scan_wifi_network_map)
qed

theorem C2_scan_one_entry_per_answer_witness:
  "scan_wifi_network (Inr duplicate_answers)
     = [[''ip'' \<mapsto> ''10.0.0.7'', ''mac'' \<mapsto> ''aa:aa:aa:aa:aa:aa''],
        [''ip'' \<mapsto> ''10.0.0.7'', ''mac'' \<mapsto> ''bb:bb:bb:bb:bb:bb'']]"
  using C2_scan_one_entry_per_answer [of duplicate_answers]
  by (simp add: duplicate_answers_def client_dict_def)
subsection \<open>The administrator check comes first\<close>

lemma lookups_no_admin: "Call_is_admin \<notin> set (lookups cs)"
  by (induction cs) (auto simp: lookups_def List.map_filter_simps split: option.splits)

lemma lookups_no_srp: "Call_srp r \<notin> set (lookups cs)"
  by (induction cs) (auto simp: lookups_def List.map_filter_simps split: option.splits)

lemma cached_range_events:
  "cached_get_local_network_range_windows now run cache = (evs, v, cache')
     \<Longrightarrow> evs = [] \<or> evs = [Call_ipconfig]"
  by (auto simp: cached_get_local_network_range_windows_def split: option.splits if_splits)

lemma main_trace:
  "\<exists>rest. fst (main w) = Call_is_admin # rest \<and> Call_is_admin \<notin> set rest"
  by (auto simp: main_def Let_def lookups_no_admin split: option.splits sum.splits)

lemma click_start_trace:
  assumes "\<not> scan_run st"
  shows "\<exists>rest. fst (click_start w now st) = Call_is_admin # rest \<and> Call_is_admin \<notin> set rest"
proof (cases "cached_get_local_network_range_windows now (ipconfig w) (range_cache st)")
  case (fields evs v cache')
  from cached_range_events [OF fields] have "Call_is_admin \<notin> set evs" by auto
  with assms fields show ?thesis
    by (auto simp: click_start_def Let_def lookups_no_admin split: option.splits sum.splits)
qed

text \<open>
  Claim C9. In every run of the scanner, and in every run started from the button of
  the dashboard, the administrator check is the first call to the world and is not
  made again; when it fails the run ends there, as a fatal exit of the scanner and as a
  stop of the dashboard's script, with no other call made, in particular no call of
  \<^verbatim>\<open>srp\<close>, inside which frames are sent.
\<close>

theorem C9_admin_gate_first:
  "(\<exists>rest. fst (main w) = Call_is_admin # rest \<and> Call_is_admin \<notin> set rest)
   \<and> (\<not> is_admin (platform_system w) (IsUserAnAdmin w) (geteuid w)
        \<longrightarrow> main w = ([Call_is_admin], SysExit 1))
   \<and> (\<not> scan_run st
        \<longrightarrow> (\<exists>rest. fst (click_start w now st) = Call_is_admin # rest
                     \<and> Call_is_admin \<notin> set rest))
   \<and> (\<not> scan_run st \<and> \<not> is_admin (platform_system w) (IsUserAnAdmin w) (geteuid w)
        \<longrightarrow> click_start w now st = ([Call_is_admin], Stop, st))"
  using main_trace [of w] click_start_trace [of st w now]
  by (simp add: main_def click_start_def)

theorem C9_admin_gate_first_witness:
  "main (example_world\<lparr>IsUserAnAdmin := Inr 0\<rparr>) = ([Call_is_admin], SysExit 1)
   \<and> click_start (example_world\<lparr>IsUserAnAdmin := Inr 0\<rparr>) 0 initial_state
        = ([Call_is_admin], Stop, initial_state)"
  using C9_admin_gate_first [of "example_world\<lparr>IsUserAnAdmin := Inr 0\<rparr>" initial_state 0]
  by (simp add: example_world_def is_admin_def initial_state_def)

subsection \<open>A range is never the empty string; a scan gives every host its keys\<close>

lemma str_network_not_empty: "str_network a p \<noteq> []"
  by (simp add: str_network_def)

lemma ip_interface_network_not_empty: "ip_interface_network s = Some r \<Longrightarrow> r \<noteq> []"
  by (auto simp: ip_interface_network_def str_network_not_empty
           split: list.splits option.splits)

lemma range_loop_not_empty: "range_loop ms = Inr r \<Longrightarrow> r \<noteq> []"
  by (induction ms rule: range_loop.induct)
     (auto simp: ip_interface_network_not_empty split: if_splits option.splits)

lemma range_not_empty: "get_local_network_range_windows run = Some r \<Longrightarrow> r \<noteq> []"
  by (auto simp: get_local_network_range_windows_def range_loop_not_empty split: sum.splits)

lemma scan_wifi_network_Inl: "scan_wifi_network (Inl e) = []"
  by (simp add: scan_wifi_network_def)

lemma scanned_ip: "\<forall>c \<in> set (scan_wifi_network x). c ''ip'' \<noteq> None"
  by (cases x) (auto simp: scan_wifi_network_map scan_wifi_network_Inl client_dict_def)

lemma scanned_mac:
  "\<forall>c \<in> set (enrich_wifi_devices_with_hostname lookup (scan_wifi_network x)).
      c ''mac'' \<noteq> None"
  by (cases x) (auto simp: enrich_map scan_wifi_network_map scan_wifi_network_Inl client_dict_def)

lemma enriched_ip:
  "c \<in> set (enrich_wifi_devices_with_hostname lookup cs) \<Longrightarrow>
     \<exists>c' \<in> set cs. c ''ip'' = c' ''ip''"
  by (auto simp: enrich_map)

lemma set_sorted_by:
  assumes "length ks = length cs"
  shows "set (sorted_by ks cs) = set cs"
proof -
  have "set (sorted_by ks cs) = snd ` set (zip ks cs)"
    by (simp add: sorted_by_def)
  also have "\<dots> = set (map snd (zip ks cs))"
    by simp
  also have "\<dots> = set cs"
    using assms by (simp only: map_snd_zip)
  finally show ?thesis .
qed

subsection \<open>The order of the tables\<close>

lemma map_fst_insort_key:
  "map fst (insort_key fst z zs) = insort (fst z) (map fst zs)"
  by (induction zs) simp_all

lemma map_fst_sort_key: "map fst (sort_key fst zs) = sort (map fst zs)"
  by (induction zs) (simp_all add: map_fst_insort_key)

lemma list_all2_pairs:
  "\<forall>z \<in> set zs. R (snd z) (fst z) \<Longrightarrow> list_all2 R (map snd zs) (map fst zs)"
  by (induction zs) simp_all

lemma sorted_by_keys:
  assumes "list_all2 R cs ks"
  shows "list_all2 R (sorted_by ks cs) (sort ks)"
proof -
  from assms have len: "length ks = length cs"
    by (simp add: list_all2_lengthD)
  from assms have "\<forall>z \<in> set (zip ks cs). R (snd z) (fst z)"
    by (induction rule: list_all2_induct) auto
  then have "\<forall>z \<in> set (sort_key fst (zip ks cs)). R (snd z) (fst z)"
    by simp
  then have "list_all2 R (map snd (sort_key fst (zip ks cs))) (map fst (sort_key fst (zip ks cs)))"
    by (rule list_all2_pairs)
  moreover have "map fst (sort_key fst (zip ks cs)) = sort ks"
    using len by (simp add: map_fst_sort_key)
  ultimately show ?thesis
    by (simp add: sorted_by_def)
qed

lemma ip_address_error: "ip_address v6 s = Inl e \<Longrightarrow> e = ValueError"
  by (auto simp: ip_address_def split: option.splits if_splits)

lemma ip_address_number: "ip_address v6 s = Inr k \<Longrightarrow> address_number v6 s = Some (key_int k)"
  by (simp add: address_number_def)

lemma ip_keys_Cons:
  "ip_keys v6 (c # cs) = Inr ks' \<longleftrightarrow>
     (\<exists>k ks. ks' = k # ks \<and> has_ip_key v6 c k \<and> ip_keys v6 cs = Inr ks)"
proof (cases "c ''ip''")
  case None
  then show ?thesis by (simp add: has_ip_key_def getitem_def)
next
  case (Some s)
  show ?thesis
  proof (cases "ip_address v6 s")
    case (Inl e)
    with Some show ?thesis by (simp add: has_ip_key_def getitem_def)
  next
    case k: (Inr k)
    show ?thesis
    proof (cases "ip_keys v6 cs")
      case (Inl e)
      with Some k show ?thesis by (simp add: has_ip_key_def getitem_def)
    next
      case (Inr ks)
      with Some k show ?thesis by (auto simp: has_ip_key_def getitem_def)
    qed
  qed
qed

lemma name_keys_Cons:
  "name_keys (c # cs) = Inr ns' \<longleftrightarrow>
     (\<exists>n ns. ns' = n # ns \<and> has_name_key c n \<and> name_keys cs = Inr ns)"
proof (cases "c ''name''")
  case None
  then show ?thesis by (simp add: has_name_key_def getitem_def)
next
  case (Some n)
  show ?thesis
  proof (cases "name_keys cs")
    case (Inl e)
    with Some show ?thesis by (simp add: has_name_key_def getitem_def)
  next
    case (Inr ns)
    with Some show ?thesis by (auto simp: has_name_key_def getitem_def)
  qed
qed

lemma ip_keys_iff: "ip_keys v6 cs = Inr ks \<longleftrightarrow> list_all2 (has_ip_key v6) cs ks"
proof (induction cs arbitrary: ks)
  case Nil
  show ?case by auto
next
  case (Cons c cs)
  show ?case
    by (simp only: ip_keys_Cons list_all2_Cons1 Cons.IH)
qed

lemma name_keys_iff: "name_keys cs = Inr ns \<longleftrightarrow> list_all2 has_name_key cs ns"
proof (induction cs arbitrary: ns)
  case Nil
  show ?case by auto
next
  case (Cons c cs)
  show ?case
    by (simp only: name_keys_Cons list_all2_Cons1 Cons.IH)
qed

lemma ip_keys_length: "ip_keys v6 cs = Inr ks \<Longrightarrow> length ks = length cs"
  by (simp add: ip_keys_iff list_all2_lengthD)

lemma name_keys_length: "name_keys cs = Inr ns \<Longrightarrow> length ns = length cs"
  by (simp add: name_keys_iff list_all2_lengthD)

lemma ip_keys_error:
  "\<forall>c \<in> set cs. c ''ip'' \<noteq> None \<Longrightarrow> ip_keys v6 cs = Inl e \<Longrightarrow> e = ValueError"
proof (induction cs)
  case Nil
  then show ?case by simp
next
  case (Cons c cs)
  from Cons.prems(1) obtain s where s: "c ''ip'' = Some s" by auto
  show ?case
  proof (cases "ip_address v6 s")
    case (Inl e')
    with s Cons.prems(2) ip_address_error [of v6 s e'] show ?thesis
      by (simp add: getitem_def)
  next
    case k: (Inr k)
    show ?thesis
    proof (cases "ip_keys v6 cs")
      case (Inl e')
      with s k Cons.prems(2) have "e = e'" by (simp add: getitem_def)
      with Cons.IH Cons.prems(1) Inl show ?thesis by simp
    next
      case (Inr ks)
      with s k Cons.prems(2) show ?thesis by (simp add: getitem_def)
    qed
  qed
qed

lemma has_ip_key_number: "has_ip_key v6 c k \<Longrightarrow> has_address_number v6 c (key_int k)"
  by (auto simp: has_ip_key_def has_address_number_def ip_address_number split: option.splits)

lemma keys_numbers:
  "list_all2 (has_ip_key v6) cs ks \<Longrightarrow>
     list_all2 (has_address_number v6) cs (map key_int ks)"
  by (induction rule: list_all2_induct) (simp_all add: has_ip_key_number)

lemma wifi_rows_keys:
  "list_all2 (has_address_number v6) cs ns \<Longrightarrow> \<forall>c \<in> set cs. c ''mac'' \<noteq> None \<Longrightarrow>
     \<exists>rows. wifi_rows i cs = Inr rows
          \<and> those (map (\<lambda>r. address_number v6 (fst (snd r))) rows) = Some ns"
proof (induction cs arbitrary: i ns)
  case Nil
  then show ?case by simp
next
  case (Cons c cs)
  from Cons.prems(1) obtain n ns' where ns: "ns = n # ns'" and n: "has_address_number v6 c n"
      and rest: "list_all2 (has_address_number v6) cs ns'"
    by (auto simp: list_all2_Cons1)
  from Cons.prems(2) have macs: "\<forall>c \<in> set cs. c ''mac'' \<noteq> None" and "c ''mac'' \<noteq> None"
    by simp_all
  from Cons.IH [OF rest macs, of "Suc i"] obtain rows where
      rows: "wifi_rows (Suc i) cs = Inr rows"
      and keys: "those (map (\<lambda>r. address_number v6 (fst (snd r))) rows) = Some ns'"
    by blast
  from n obtain s where s: "c ''ip'' = Some s" "address_number v6 s = Some n"
    by (auto simp: has_address_number_def split: option.splits)
  from \<open>c ''mac'' \<noteq> None\<close> obtain m where m: "c ''mac'' = Some m"
    by auto
  show ?case
    by (simp add: getitem_def ns s m rows keys)
qed

lemma wifi_rows_list_order:
  "\<forall>c \<in> set cs. c ''ip'' \<noteq> None \<and> c ''mac'' \<noteq> None \<Longrightarrow>
     \<exists>rows. wifi_rows i cs = Inr rows
          \<and> map (\<lambda>r. fst (snd r)) rows = List.map_filter (\<lambda>c. c ''ip'') cs"
proof (induction cs arbitrary: i)
  case Nil
  show ?case by simp
next
  case (Cons c cs)
  from Cons.prems obtain s m where c: "c ''ip'' = Some s" "c ''mac'' = Some m"
    by auto
  from Cons.prems have "\<forall>c \<in> set cs. c ''ip'' \<noteq> None \<and> c ''mac'' \<noteq> None"
    by simp
  from Cons.IH [OF this, of "Suc i"] obtain rows where
      rows: "wifi_rows (Suc i) cs = Inr rows"
      and order: "map (\<lambda>r. fst (snd r)) rows = List.map_filter (\<lambda>c. c ''ip'') cs"
    by blast
  show ?case
    by (simp add: getitem_def c rows order)
qed

lemma bluetooth_rows_keys:
  "list_all2 has_name_key cs ns \<Longrightarrow> \<forall>c \<in> set cs. c ''mac'' \<noteq> None \<Longrightarrow>
     \<exists>rows. bluetooth_rows i cs = Inr rows \<and> map (\<lambda>r. fst (snd r)) rows = map shown_name ns"
proof (induction cs arbitrary: i ns)
  case Nil
  then show ?case by simp
next
  case (Cons c cs)
  from Cons.prems(1) obtain n ns' where ns: "ns = n # ns'" and "has_name_key c n"
      and rest: "list_all2 has_name_key cs ns'"
    by (auto simp: list_all2_Cons1)
  then have n: "c ''name'' = Some n"
    by (simp add: has_name_key_def)
  from Cons.prems(2) have macs: "\<forall>c \<in> set cs. c ''mac'' \<noteq> None" and "c ''mac'' \<noteq> None"
    by simp_all
  from Cons.IH [OF rest macs, of "Suc i"] obtain rows where
      rows: "bluetooth_rows (Suc i) cs = Inr rows"
      and names: "map (\<lambda>r. fst (snd r)) rows = map shown_name ns'"
    by blast
  from \<open>c ''mac'' \<noteq> None\<close> obtain m where m: "c ''mac'' = Some m"
    by auto
  show ?case
    by (simp add: getitem_def ns n m rows names shown_name_def)
qed

lemma display_wifi_sorted:
  assumes "ip_keys v6 cs = Inr ks" and "same_version ks"
      and "\<forall>c \<in> set cs. c ''mac'' \<noteq> None"
  shows "\<exists>rows. display_wifi_results v6 cs = Inr rows
            \<and> those (map (\<lambda>r. address_number v6 (fst (snd r))) rows)
                = Some (sort (map key_int ks))"
proof (cases "cs = []")
  case True
  with assms show ?thesis by (simp add: display_wifi_results_def)
next
  case False
  from assms(1) have "list_all2 (has_address_number v6) cs (map key_int ks)"
    by (simp add: ip_keys_iff keys_numbers)
  then have a: "list_all2 (has_address_number v6) (sorted_by (map key_int ks) cs)
                  (sort (map key_int ks))"
    by (rule sorted_by_keys)
  from assms(1) have "set (sorted_by (map key_int ks) cs) = set cs"
    by (simp add: ip_keys_length set_sorted_by)
  with assms(3) have b: "\<forall>c \<in> set (sorted_by (map key_int ks) cs). c ''mac'' \<noteq> None"
    by simp
  from wifi_rows_keys [OF a b, of 0] False assms(1,2) show ?thesis
    by (simp add: display_wifi_results_def sorted_clients_def sorted_by_address_def)
qed

lemma display_wifi_mixed:
  assumes "ip_keys v6 cs = Inr ks" and "\<not> same_version ks"
  shows "display_wifi_results v6 cs = Inl TypeError"
proof -
  from assms(2) have "ks \<noteq> []"
    by (auto simp: same_version_def)
  with assms(1) have "cs \<noteq> []"
    by auto
  with assms show ?thesis
    by (simp add: display_wifi_results_def sorted_clients_def sorted_by_address_def)
qed

lemma display_wifi_fallback:
  assumes "ip_keys v6 cs = Inl e"
      and "\<forall>c \<in> set cs. c ''ip'' \<noteq> None \<and> c ''mac'' \<noteq> None"
  shows "\<exists>rows. display_wifi_results v6 cs = Inr rows
            \<and> map (\<lambda>r. fst (snd r)) rows = List.map_filter (\<lambda>c. c ''ip'') cs"
proof -
  from assms have e: "e = ValueError"
    using ip_keys_error [of cs v6 e] by blast
  from assms(1) have "cs \<noteq> []"
    by auto
  with assms(1) e wifi_rows_list_order [OF assms(2), of 0] show ?thesis
    by (simp add: display_wifi_results_def sorted_clients_def)
qed

lemma display_bluetooth_sorted:
  assumes "name_keys cs = Inr ns" and "\<forall>c \<in> set cs. c ''mac'' \<noteq> None"
  shows "\<exists>rows. display_bluetooth_results cs = Inr rows
            \<and> map (\<lambda>r. fst (snd r)) rows = map shown_name (sort ns)"
proof (cases "cs = []")
  case True
  with assms show ?thesis by (simp add: display_bluetooth_results_def)
next
  case False
  from assms(1) have "list_all2 has_name_key cs ns" by (simp add: name_keys_iff)
  then have a: "list_all2 has_name_key (sorted_by ns cs) (sort ns)" by (rule sorted_by_keys)
  from assms(1) have "set (sorted_by ns cs) = set cs"
    by (simp add: name_keys_length set_sorted_by)
  with assms(2) have b: "\<forall>c \<in> set (sorted_by ns cs). c ''mac'' \<noteq> None" by simp
  from bluetooth_rows_keys [OF a b, of 0] False assms(1) show ?thesis
    by (simp add: display_bluetooth_results_def)
qed

lemmas ip_eval = ip_address_def ip_int_from_string_def parse_octet_def int_of_str_def
  digit_val_def from_bytes_def is_digit_def

text \<open>
  Claim C8, as stated: every snapshot is presented with the hosts in numeric order of
  address and the devices in order of name. It fails in the dashboard, which presents
  both lists as they are (the example snapshot has \<^verbatim>\<open>10.0.0.2\<close> before \<^verbatim>\<open>10.0.0.1\<close>,
  and \<^verbatim>\<open>lamp\<close> before \<^verbatim>\<open>Speaker\<close>), and in the scanner when an address is not valid:
  the table is then printed in the order of the list.
\<close>

theorem C8_counterexample:
  "\<not> address_ordered (List.map_filter fst (dashboard_wifi_table example_wifi_results))
   \<and> display_wifi_results example_ip6 invalid_wifi_results
       = Inr [(1, ''10.0.0.2'', ''11:22:33:44:55:66'', ''N/A''),
              (2, ''10.0.0.1'', ''aa:bb:cc:dd:ee:ff'', ''router.local''),
              (3, ''10.0.0.300'', ''cc:cc:cc:cc:cc:cc'', ''N/A'')]
   \<and> \<not> address_ordered [''10.0.0.2'', ''10.0.0.1'', ''10.0.0.300'']
   \<and> \<not> sorted (List.map_filter fst (dashboard_bluetooth_table example_bt_results))"
  by (simp add: address_ordered_def dashboard_wifi_table_def dashboard_bluetooth_table_def
        example_wifi_results_def invalid_wifi_results_def example_bt_results_def
        host1_def host2_def display_wifi_results_def sorted_clients_def getitem_def
        name_width_def ip_eval)

text \<open>
  Claim C8, amended. In the scanner, for a list of hosts that all have a link address:
  when every host has an address text that \<^verbatim>\<open>ipaddress.ip_address\<close> accepts and the
  addresses are all IPv4 or all IPv6, the Wi-Fi table is printed and the addresses of
  its rows are the addresses of the hosts in ascending numeric order; when the
  accepted addresses mix IPv4 and IPv6, the sort raises \<^verbatim>\<open>TypeError\<close> and no table is
  printed; when every host has an address text and \<^verbatim>\<open>ip_address\<close> raises
  \<^verbatim>\<open>ValueError\<close> for one of them, the table is printed in the order of the list. When
  every device has a name and a link address, the Bluetooth table is printed and the names
  of its rows are the names of the devices in ascending order of code points (upper
  case before lower case), as the table shows them. The dashboard presents both lists in
  the order of the snapshot.
\<close>

theorem C8_display_order:
  "(ip_keys v6 clients_list = Inr ks \<and> same_version ks
      \<and> (\<forall>c \<in> set clients_list. c ''mac'' \<noteq> None)
      \<longrightarrow> (\<exists>rows. display_wifi_results v6 clients_list = Inr rows
                 \<and> those (map (\<lambda>r. address_number v6 (fst (snd r))) rows)
                     = Some (sort (map key_int ks))))
   \<and> (ip_keys v6 clients_list = Inr ks \<and> \<not> same_version ks
      \<longrightarrow> display_wifi_results v6 clients_list = Inl TypeError)
   \<and> (ip_keys v6 clients_list = Inl e
      \<and> (\<forall>c \<in> set clients_list. c ''ip'' \<noteq> None \<and> c ''mac'' \<noteq> None)
      \<longrightarrow> (\<exists>rows. display_wifi_results v6 clients_list = Inr rows
                 \<and> map (\<lambda>r. fst (snd r)) rows
                     = List.map_filter (\<lambda>c. c ''ip'') clients_list))
   \<and> (name_keys devices_list = Inr ns \<and> (\<forall>c \<in> set devices_list. c ''mac'' \<noteq> None)
      \<longrightarrow> (\<exists>rows. display_bluetooth_results devices_list = Inr rows
                 \<and> map (\<lambda>r. fst (snd r)) rows = map shown_name (sort ns)))
   \<and> map fst (dashboard_wifi_table wifi_list) = map (\<lambda>d. d ''ip'') wifi_list
   \<and> map fst (dashboard_bluetooth_table bt_list) = map (\<lambda>d. d ''name'') bt_list"
proof -
  have first: "ip_keys v6 clients_list = Inr ks \<and> same_version ks
      \<and> (\<forall>c \<in> set clients_list. c ''mac'' \<noteq> None)
      \<Longrightarrow> \<exists>rows. display_wifi_results v6 clients_list = Inr rows
                 \<and> those (map (\<lambda>r. address_number v6 (fst (snd r))) rows)
                     = Some (sort (map key_int ks))"
    using display_wifi_sorted [of v6 clients_list ks] by blast
  have second: "ip_keys v6 clients_list = Inr ks \<and> \<not> same_version ks
      \<Longrightarrow> display_wifi_results v6 clients_list = Inl TypeError"
    using display_wifi_mixed [of v6 clients_list ks] by blast
  have third: "ip_keys v6 clients_list = Inl e
      \<and> (\<forall>c \<in> set clients_list. c ''ip'' \<noteq> None \<and> c ''mac'' \<noteq> None)
      \<Longrightarrow> \<exists>rows. display_wifi_results v6 clients_list = Inr rows
                 \<and> map (\<lambda>r. fst (snd r)) rows
                     = List.map_filter (\<lambda>c. c ''ip'') clients_list"
    using display_wifi_fallback [of v6 clients_list e] by blast
  have fourth: "name_keys devices_list = Inr ns \<and> (\<forall>c \<in> set devices_list. c ''mac'' \<noteq> None)
      \<Longrightarrow> \<exists>rows. display_bluetooth_results devices_list = Inr rows
                 \<and> map (\<lambda>r. fst (snd r)) rows = map shown_name (sort ns)"
    using display_bluetooth_sorted [of devices_list ns] by blast
  have fifth: "map fst (dashboard_wifi_table wifi_list) = map (\<lambda>d. d ''ip'') wifi_list"
    and sixth: "map fst (dashboard_bluetooth_table bt_list) = map (\<lambda>d. d ''name'') bt_list"
    by (simp_all add: dashboard_wifi_table_def dashboard_bluetooth_table_def)
  from first second third fourth fifth sixth show ?thesis
    by blast
qed

lemma example_ip_keys:
  "ip_keys example_ip6 example_wifi_results
     = Inr [IPv4Address 167772162, IPv4Address 167772161]"
  by (simp add: example_wifi_results_def host1_def host2_def getitem_def ip_eval)

lemma mixed_ip_keys:
  "ip_keys example_ip6 mixed_wifi_results = Inr [IPv4Address 167772161, IPv6Address 1]"
  by (simp add: mixed_wifi_results_def host1_def getitem_def ip_eval example_ip6_def)

lemma ipv6_ip_keys:
  "ip_keys example_ip6 ipv6_wifi_results = Inr [IPv6Address 2, IPv6Address 1]"
  by (simp add: ipv6_wifi_results_def getitem_def ip_eval example_ip6_def)

lemma invalid_ip_keys: "ip_keys example_ip6 invalid_wifi_results = Inl ValueError"
  by (simp add: invalid_wifi_results_def host1_def host2_def getitem_def ip_eval)

lemma example_name_keys: "name_keys example_bt_results = Inr [''lamp'', ''Speaker'']"
  by (simp add: example_bt_results_def getitem_def)

lemma example_wifi_macs: "\<forall>c \<in> set example_wifi_results. c ''mac'' \<noteq> None"
  by (simp add: example_wifi_results_def host1_def host2_def)

lemma ipv6_wifi_macs: "\<forall>c \<in> set ipv6_wifi_results. c ''mac'' \<noteq> None"
  by (simp add: ipv6_wifi_results_def)

lemma invalid_wifi_keys:
  "\<forall>c \<in> set invalid_wifi_results. c ''ip'' \<noteq> None \<and> c ''mac'' \<noteq> None"
  by (simp add: invalid_wifi_results_def host1_def host2_def)

lemma invalid_wifi_ips:
  "List.map_filter (\<lambda>c. c ''ip'') invalid_wifi_results
     = [''10.0.0.2'', ''10.0.0.1'', ''10.0.0.300'']"
  by (simp add: invalid_wifi_results_def host1_def host2_def)

lemma example_bt_macs: "\<forall>c \<in> set example_bt_results. c ''mac'' \<noteq> None"
  by (simp add: example_bt_results_def)

theorem C8_display_order_witness:
  "(\<exists>rows. display_wifi_results example_ip6 example_wifi_results = Inr rows
        \<and> those (map (\<lambda>r. address_number example_ip6 (fst (snd r))) rows)
            = Some [167772161, 167772162])
   \<and> (\<exists>rows. display_wifi_results example_ip6 ipv6_wifi_results = Inr rows
        \<and> those (map (\<lambda>r. address_number example_ip6 (fst (snd r))) rows) = Some [1, 2])
   \<and> display_wifi_results example_ip6 mixed_wifi_results = Inl TypeError
   \<and> (\<exists>rows. display_wifi_results example_ip6 invalid_wifi_results = Inr rows
        \<and> map (\<lambda>r. fst (snd r)) rows = [''10.0.0.2'', ''10.0.0.1'', ''10.0.0.300''])
   \<and> (\<exists>rows. display_bluetooth_results example_bt_results = Inr rows
        \<and> map (\<lambda>r. fst (snd r)) rows = [''Speaker'', ''lamp''])"
proof -
  have v: "same_version [IPv4Address 167772162, IPv4Address 167772161]"
      "same_version [IPv6Address 2, IPv6Address 1]"
      "\<not> same_version [IPv4Address 167772161, IPv6Address 1]"
    by (simp_all add: same_version_def)
  note a = C8_display_order
             [where ?v6.0 = example_ip6 and clients_list = example_wifi_results
                and ks = "[IPv4Address 167772162, IPv4Address 167772161]"
                and devices_list = example_bt_results and ns = "[''lamp'', ''Speaker'']"]
    and b = C8_display_order
             [where ?v6.0 = example_ip6 and clients_list = ipv6_wifi_results
                and ks = "[IPv6Address 2, IPv6Address 1]"]
    and c = C8_display_order
             [where ?v6.0 = example_ip6 and clients_list = mixed_wifi_results
                and ks = "[IPv4Address 167772161, IPv6Address 1]"]
    and d = C8_display_order
             [where ?v6.0 = example_ip6 and clients_list = invalid_wifi_results
                and e = ValueError]
  from a example_ip_keys v(1) example_wifi_macs example_name_keys example_bt_macs
  have first: "\<exists>rows. display_wifi_results example_ip6 example_wifi_results = Inr rows
        \<and> those (map (\<lambda>r. address_number example_ip6 (fst (snd r))) rows)
            = Some [167772161, 167772162]"
    and fifth: "\<exists>rows. display_bluetooth_results example_bt_results = Inr rows
        \<and> map (\<lambda>r. fst (snd r)) rows = [''Speaker'', ''lamp'']"
    by (simp_all add: shown_name_def name_width_def)
  from b ipv6_ip_keys v(2) ipv6_wifi_macs
  have second: "\<exists>rows. display_wifi_results example_ip6 ipv6_wifi_results = Inr rows
        \<and> those (map (\<lambda>r. address_number example_ip6 (fst (snd r))) rows) = Some [1, 2]"
    by simp
  from c mixed_ip_keys v(3)
  have third: "display_wifi_results example_ip6 mixed_wifi_results = Inl TypeError"
    by simp
  from d invalid_ip_keys invalid_wifi_keys invalid_wifi_ips
  have fourth: "\<exists>rows. display_wifi_results example_ip6 invalid_wifi_results = Inr rows
        \<and> map (\<lambda>r. fst (snd r)) rows = [''10.0.0.2'', ''10.0.0.1'', ''10.0.0.300'']"
    by simp
  from first second third fourth fifth show ?thesis
    by blast
qed

subsection \<open>The end-to-end example\<close>

lemmas range_eval = get_local_network_range_windows_def match_here_def match_quad_def
  match_plus_def match_star_def is_digit_def is_space_def is_dot_or_space_def
  ip_interface_network_def make_netmask_def prefix_from_prefix_string_def
  prefix_from_ip_string_def str_network_def str_address_def str_nat.simps digit_char_def
  ip_int_from_string_def parse_octet_def int_of_str_def digit_val_def from_bytes_def
  prefix_from_ip_int_def ip_int_from_prefix_def ALL_ONES_def count_righthand_zero_bits_def
  bit_length_def bit_length_nat.simps

lemma example_range:
  "get_local_network_range_windows (ipconfig example_world) = Some ''10.0.0.0/24''"
  by (simp add: example_world_def range_eval)

lemma example_admin:
  "is_admin (platform_system example_world) (IsUserAnAdmin example_world)
     (geteuid example_world)"
  by (simp add: example_world_def is_admin_def)

lemma example_platform: "platform_system example_world = ''Windows''"
  by (simp add: example_world_def)

lemma example_scan:
  "scan_wifi_network (srp example_world ''10.0.0.0/24'') = [host2, host1]"
  by (simp add: example_world_def example_answers_def scan_wifi_network_def host1_def host2_def)

lemma example_hosts_ipv4:
  "\<forall>c \<in> set [host2, host1]. \<exists>s n. c ''ip'' = Some s \<and> ip_int_from_string s = Some n"
  by (simp add: host1_def host2_def ip_eval)

subsection \<open>A Bluetooth adapter that cannot be used\<close>

lemma ipv4_keys:
  "\<forall>c \<in> set cs. \<exists>s n. c ''ip'' = Some s \<and> ip_int_from_string s = Some n \<Longrightarrow>
     \<exists>ks. ip_keys v6 cs = Inr ks \<and> (\<forall>k \<in> set ks. version k = 4)"
proof (induction cs)
  case Nil
  show ?case by simp
next
  case (Cons c cs)
  from Cons.prems obtain s n where c: "c ''ip'' = Some s" "ip_int_from_string s = Some n"
    by auto
  from Cons.prems have "\<forall>c \<in> set cs. \<exists>s n. c ''ip'' = Some s \<and> ip_int_from_string s = Some n"
    by simp
  from Cons.IH [OF this] obtain ks where "ip_keys v6 cs = Inr ks" "\<forall>k \<in> set ks. version k = 4"
    by blast
  with c show ?case
    by (simp add: getitem_def ip_address_def)
qed

lemma same_version_4: "\<forall>k \<in> set ks. version k = 4 \<Longrightarrow> same_version ks"
  by (cases ks) (auto simp: same_version_def list_all_iff)

lemma ipv4_hosts_display:
  assumes "\<forall>c \<in> set cs. \<exists>s n. c ''ip'' = Some s \<and> ip_int_from_string s = Some n"
      and "\<forall>c \<in> set cs. c ''mac'' \<noteq> None"
  shows "\<exists>rows. display_wifi_results v6 cs = Inr rows"
proof -
  from ipv4_keys [OF assms(1), of v6] obtain ks where
    "ip_keys v6 cs = Inr ks" "\<forall>k \<in> set ks. version k = 4"
    by blast
  with display_wifi_sorted [of v6 cs ks] assms(2) show ?thesis
    by (auto simp: same_version_4)
qed

text \<open>
  Claim C7. When the Bluetooth discovery raises \<^verbatim>\<open>BleakError\<close>, the Bluetooth scan
  returns the empty list instead of raising, so that the run of the scanner, and that
  of the dashboard, is the run it would be with a discovery that found no device: the
  failure aborts nothing. In particular a run of the scanner that has passed the
  administrator check and found a range, and whose hosts all have IPv4 addresses, goes
  on to print both tables, the Bluetooth table being empty; and such a run of the
  dashboard ends with its results stored, the Bluetooth results being empty.
\<close>

theorem C7_bleak_error_absorbed:
  assumes "discover w = Inl BleakError"
  shows "scan_bluetooth_devices (discover w) = Inr []
   \<and> main w = main (w\<lparr>discover := Inr []\<rparr>)
   \<and> click_start w now st = click_start (w\<lparr>discover := Inr []\<rparr>) now st
   \<and> (is_admin (platform_system w) (IsUserAnAdmin w) (geteuid w)
        \<and> platform_system w = ''Windows''
        \<and> get_local_network_range_windows (ipconfig w) = Some r
        \<and> (\<forall>c \<in> set (scan_wifi_network (srp w r)).
               \<exists>s n. c ''ip'' = Some s \<and> ip_int_from_string s = Some n)
      \<longrightarrow> (\<exists>wifi_table. snd (main w) = Finished wifi_table []))
   \<and> (is_admin (platform_system w) (IsUserAnAdmin w) (geteuid w)
        \<and> \<not> scan_run st \<and> range_cache st = None
        \<and> get_local_network_range_windows (ipconfig w) = Some r
      \<longrightarrow> (\<exists>events st'. click_start w now st = (events, Rerun, st') \<and> bt_results st' = []))"
proof -
  have bt: "scan_bluetooth_devices (discover w) = Inr []"
    using assms by (simp add: scan_bluetooth_devices_def)
  have same: "scan_bluetooth_devices (discover w) = scan_bluetooth_devices (Inr [])"
    using bt by (simp add: scan_bluetooth_devices_def)
  have scanner: "main w = main (w\<lparr>discover := Inr []\<rparr>)"
    by (simp add: main_def Let_def same cong: option.case_cong if_cong sum.case_cong)
  have dashboard: "click_start w now st = click_start (w\<lparr>discover := Inr []\<rparr>) now st"
    by (simp add: click_start_def Let_def same cong: option.case_cong if_cong sum.case_cong)
  have "\<exists>wifi_table. snd (main w) = Finished wifi_table []"
    if "is_admin (platform_system w) (IsUserAnAdmin w) (geteuid w)"
      and "platform_system w = ''Windows''"
      and "get_local_network_range_windows (ipconfig w) = Some r"
      and v4: "\<forall>c \<in> set (scan_wifi_network (srp w r)).
                 \<exists>s n. c ''ip'' = Some s \<and> ip_int_from_string s = Some n"
  proof -
    from that(3) have "r \<noteq> []" by (rule range_not_empty)
    moreover from v4 have
      "\<forall>c \<in> set (enrich_wifi_devices_with_hostname (gethostbyaddr w)
                    (scan_wifi_network (srp w r))).
         \<exists>s n. c ''ip'' = Some s \<and> ip_int_from_string s = Some n"
      by (auto simp: enrich_map)
    from ipv4_hosts_display [OF this scanned_mac] obtain rows where
      "display_wifi_results (ip6_int_from_string w)
         (enrich_wifi_devices_with_hostname (gethostbyaddr w) (scan_wifi_network (srp w r)))
       = Inr rows"
      by blast
    ultimately show ?thesis
      using that(1-3) bt by (simp add: main_def Let_def display_bluetooth_results_def)
  qed
  moreover have "\<exists>events st'. click_start w now st = (events, Rerun, st') \<and> bt_results st' = []"
    if "is_admin (platform_system w) (IsUserAnAdmin w) (geteuid w)"
      and "\<not> scan_run st" and "range_cache st = None"
      and "get_local_network_range_windows (ipconfig w) = Some r"
  proof -
    from that(4) have "r \<noteq> []" by (rule range_not_empty)
    then show ?thesis
      using that bt
      by (simp add: click_start_def Let_def cached_get_local_network_range_windows_def
            dashboard_enrich_map [OF scanned_ip])
  qed
  ultimately show ?thesis using bt scanner dashboard by blast
qed

theorem C7_bleak_error_absorbed_witness:
  "scan_bluetooth_devices (discover (example_world\<lparr>discover := Inl BleakError\<rparr>)) = Inr []
   \<and> main (example_world\<lparr>discover := Inl BleakError\<rparr>)
       = main (example_world\<lparr>discover := Inr []\<rparr>)
   \<and> (\<exists>wifi_table.
         snd (main (example_world\<lparr>discover := Inl BleakError\<rparr>)) = Finished wifi_table [])
   \<and> (\<exists>events st'.
         click_start (example_world\<lparr>discover := Inl BleakError\<rparr>) 0 initial_state
           = (events, Rerun, st')
         \<and> bt_results st' = [])"
proof -
  define w where "w = example_world\<lparr>discover := Inl BleakError\<rparr>"
  have d: "discover w = Inl BleakError"
    by (simp add: w_def)
  have a: "is_admin (platform_system w) (IsUserAnAdmin w) (geteuid w)"
    using example_admin by (simp add: w_def)
  have p: "platform_system w = ''Windows''"
    using example_platform by (simp add: w_def)
  have r: "get_local_network_range_windows (ipconfig w) = Some ''10.0.0.0/24''"
    using example_range by (simp add: w_def)
  have h: "\<forall>c \<in> set (scan_wifi_network (srp w ''10.0.0.0/24'')).
              \<exists>s n. c ''ip'' = Some s \<and> ip_int_from_string s = Some n"
    using example_scan example_hosts_ipv4 by (simp add: w_def)
  have i: "\<not> scan_run initial_state" "range_cache initial_state = None"
    by (simp_all add: initial_state_def)
  have u: "w\<lparr>discover := Inr []\<rparr> = example_world\<lparr>discover := Inr []\<rparr>"
    by (simp add: w_def)
  note t = C7_bleak_error_absorbed [OF d, of 0 initial_state "''10.0.0.0/24''"]
  from t have c1: "scan_bluetooth_devices (discover w) = Inr []"
    by (rule conjunct1)
  from t have c2: "main w = main (w\<lparr>discover := Inr []\<rparr>)"
    by (elim conjE)
  from t a p r h have c3: "\<exists>wifi_table. snd (main w) = Finished wifi_table []"
    by (elim conjE) (erule mp, intro conjI)
  from t a i r have c4: "\<exists>events st'. click_start w 0 initial_state = (events, Rerun, st')
      \<and> bt_results st' = []"
    by (elim conjE) (erule mp, intro conjI)
  from c1 c2 c3 c4 show ?thesis
    unfolding u unfolding w_def by (intro conjI)
qed
subsection \<open>Two runs of the dashboard\<close>

lemma moved_range:
  "get_local_network_range_windows (ipconfig moved_world) = Some ''192.168.1.0/24''"
  by (simp add: moved_world_def range_eval)

lemma after_first_run_eq:
  "after_first_run =
     \<lparr>scan_run = False, wifi_results = [], bt_results = [],
      range_cache = Some (0, Some ''10.0.0.0/24'')\<rparr>"
  using example_range example_admin
  by (simp add: after_first_run_def click_start_def click_scan_again_def initial_state_def
        cached_get_local_network_range_windows_def Let_def
        dashboard_enrich_map [OF scanned_ip])
     (simp add: example_world_def scan_bluetooth_devices_def)

lemma moved_admin:
  "is_admin (platform_system moved_world) (IsUserAnAdmin moved_world) (geteuid moved_world)"
  by (simp add: moved_world_def is_admin_def)

lemma second_run_uses_first_range:
  "fst (click_start moved_world 10 after_first_run)
     = [Call_is_admin, Call_srp ''10.0.0.0/24'', Call_discover]
   \<and> wifi_results (snd (snd (click_start moved_world 10 after_first_run))) = []"
  using moved_admin
  by (simp add: after_first_run_eq click_start_def cached_get_local_network_range_windows_def
        ttl_def Let_def dashboard_enrich_map [OF scanned_ip])
     (simp add: moved_world_def scan_wifi_network_def lookups_def
        enrich_wifi_devices_with_hostname_def scan_bluetooth_devices_def)

lemma fresh_run_in_moved_world:
  "fst (click_start moved_world 10 initial_state)
     = [Call_is_admin, Call_ipconfig, Call_srp ''192.168.1.0/24'',
        Call_gethostbyaddr ''192.168.1.1'', Call_discover]
   \<and> dashboard_wifi_table (wifi_results (snd (snd (click_start moved_world 10 initial_state))))
     = [(Some ''192.168.1.1'', Some ''dd:dd:dd:dd:dd:dd'', Some ''N/A'')]"
  using moved_admin moved_range
  by (simp add: initial_state_def click_start_def cached_get_local_network_range_windows_def
        Let_def dashboard_enrich_map [OF scanned_ip])
     (simp add: moved_world_def scan_wifi_network_def lookups_def dashboard_wifi_table_def
        enrich_map resolved_name_def dns1_def scan_bluetooth_devices_def)

text \<open>
  Claim C4, as stated: a fresh run consults nothing that an earlier run left behind, in
  particular no cached range. It fails in the dashboard: after a run in the first world
  at time 0 and \<^verbatim>\<open>Scan Again\<close>, a run ten seconds later in the second world does not
  run \<^verbatim>\<open>ipconfig\<close>, probes the range of the first world, and so shows something else
  than a run in the second world that has no history.
\<close>

theorem C4_counterexample:
  "idle after_first_run
   \<and> observable (click_start moved_world 10 after_first_run)
       \<noteq> observable (click_start moved_world 10 initial_state)
   \<and> Call_srp ''10.0.0.0/24'' \<in> set (fst (click_start moved_world 10 after_first_run))
   \<and> Call_ipconfig \<notin> set (fst (click_start moved_world 10 after_first_run))"
  using second_run_uses_first_range fresh_run_in_moved_world
  by (simp add: observable_def idle_def after_first_run_eq)

lemma stale_cache:
  "\<not> cache_fresh now cache \<Longrightarrow>
     cached_get_local_network_range_windows now run cache
       = ([Call_ipconfig], get_local_network_range_windows run,
          Some (now, get_local_network_range_windows run))"
  by (auto simp: cache_fresh_def cached_get_local_network_range_windows_def
           split: option.splits)

lemma fresh_cache:
  "cache = Some (stored, v) \<Longrightarrow> cache_fresh now cache \<Longrightarrow>
     cached_get_local_network_range_windows now run cache = ([], v, cache)"
  by (simp add: cache_fresh_def cached_get_local_network_range_windows_def)

lemma run_from_stale_cache:
  assumes "idle st" and "\<not> cache_fresh now (range_cache st)"
  shows "observable (click_start w now st) = observable (click_start w now initial_state)"
proof -
  have "\<not> cache_fresh now None"
    by (simp add: cache_fresh_def)
  note c = stale_cache [OF assms(2)] stale_cache [OF this]
  from assms(1) show ?thesis
    by (simp add: click_start_def c observable_def idle_def initial_state_def Let_def
          dashboard_enrich_map [OF scanned_ip]
             split: option.splits sum.splits)
qed

lemma run_from_fresh_cache:
  assumes "idle st" and "range_cache st = Some (stored, Some r)" and "r \<noteq> []"
      and "cache_fresh now (range_cache st)"
      and "is_admin (platform_system w) (IsUserAnAdmin w) (geteuid w)"
  shows "Call_ipconfig \<notin> set (fst (click_start w now st))
       \<and> Call_srp r \<in> set (fst (click_start w now st))"
proof -
  have "Call_ipconfig \<notin> set (lookups cs)" for cs
    by (induction cs) (auto simp: lookups_def split: option.splits)
  with assms show ?thesis
    using fresh_cache [OF assms(2) assms(4)]
    by (simp add: click_start_def idle_def Let_def dashboard_enrich_map [OF scanned_ip]
             split: sum.splits)
qed

text \<open>
  Claim C4, amended. \<^verbatim>\<open>Scan Again\<close> discards the snapshot and leaves the dashboard
  idle. A run from the idle state whose cache entry is missing or older than 600
  seconds makes the same calls, ends the same way and leaves the same snapshot as a run
  with no history. A run from the idle state whose cache entry is younger than that
  does not resolve the range again: it probes the range that the earlier run stored.
  (The scanner keeps no state between runs: its \<^verbatim>\<open>main\<close> is a function of the world
  alone.)
\<close>

theorem C4_runs_share_only_the_cached_range:
  "(scan_run st0 \<longrightarrow> idle (click_scan_again st0))
   \<and> (idle st \<and> \<not> cache_fresh now (range_cache st)
        \<longrightarrow> observable (click_start w now st) = observable (click_start w now initial_state))
   \<and> (idle st \<and> range_cache st = Some (stored, Some r) \<and> r \<noteq> []
        \<and> cache_fresh now (range_cache st)
        \<and> is_admin (platform_system w) (IsUserAnAdmin w) (geteuid w)
        \<longrightarrow> Call_ipconfig \<notin> set (fst (click_start w now st))
            \<and> Call_srp r \<in> set (fst (click_start w now st)))"
proof -
  have first: "scan_run st0 \<Longrightarrow> idle (click_scan_again st0)"
    by (simp add: click_scan_again_def idle_def)
  have second: "idle st \<and> \<not> cache_fresh now (range_cache st)
      \<Longrightarrow> observable (click_start w now st) = observable (click_start w now initial_state)"
    by (simp add: run_from_stale_cache)
  have third: "idle st \<and> range_cache st = Some (stored, Some r) \<and> r \<noteq> []
        \<and> cache_fresh now (range_cache st)
        \<and> is_admin (platform_system w) (IsUserAnAdmin w) (geteuid w)
      \<Longrightarrow> Call_ipconfig \<notin> set (fst (click_start w now st))
            \<and> Call_srp r \<in> set (fst (click_start w now st))"
    using run_from_fresh_cache [of st stored r now w] by blast
  from first second third show ?thesis
    by blast
qed

theorem C4_runs_share_only_the_cached_range_witness:
  "idle (click_scan_again (snd (snd (click_start example_world 0 initial_state))))
   \<and> observable (click_start moved_world 700 after_first_run)
       = observable (click_start moved_world 700 initial_state)
   \<and> Call_ipconfig \<notin> set (fst (click_start moved_world 10 after_first_run))
   \<and> Call_srp ''10.0.0.0/24'' \<in> set (fst (click_start moved_world 10 after_first_run))"
proof -
  have run: "scan_run (snd (snd (click_start example_world 0 initial_state)))"
    using example_range example_admin
    by (simp add: click_start_def initial_state_def
          cached_get_local_network_range_windows_def Let_def
          dashboard_enrich_map [OF scanned_ip])
       (simp add: example_world_def scan_bluetooth_devices_def)
  have idle: "idle after_first_run"
    by (simp add: idle_def after_first_run_eq)
  have cache: "range_cache after_first_run = Some (0, Some ''10.0.0.0/24'')"
    by (simp add: after_first_run_eq)
  have stale: "\<not> cache_fresh 700 (range_cache after_first_run)"
    and fresh: "cache_fresh 10 (range_cache after_first_run)"
    by (simp_all add: cache cache_fresh_def ttl_def)
  show ?thesis
    using C4_runs_share_only_the_cached_range
            [of "snd (snd (click_start example_world 0 initial_state))"
                after_first_run 700 moved_world 0 "''10.0.0.0/24''"]
          C4_runs_share_only_the_cached_range
            [of "snd (snd (click_start example_world 0 initial_state))"
                after_first_run 10 moved_world 0 "''10.0.0.0/24''"]
          run idle cache stale fresh moved_admin
    by simp
qed
subsection \<open>Splitting, octets and the link-local range\<close>

lemma split_on_not_Nil: "split_on sep s \<noteq> []"
  by (induction s) (auto split: list.splits)

lemma split_on_no_sep: "sep \<notin> set s \<Longrightarrow> split_on sep s = [s]"
  by (induction s) auto

lemma split_on_append:
  "sep \<notin> set u \<Longrightarrow> split_on sep (u @ sep # v) = u # split_on sep v"
  by (induction u) (auto simp: split_on_not_Nil split: list.splits)

lemma split_on_head:
  "split_on sep s = w # ws \<Longrightarrow>
     sep \<notin> set w \<and> (if ws = [] then s = w else \<exists>v. s = w @ sep # v \<and> split_on sep v = ws)"
proof (induction s arbitrary: w ws)
  case Nil
  then show ?case by simp
next
  case (Cons c s)
  show ?case
  proof (cases "c = sep")
    case True
    with Cons.prems show ?thesis by (auto simp: split_on_not_Nil)
  next
    case False
    obtain w' ws' where s: "split_on sep s = w' # ws'"
      using split_on_not_Nil [of sep s] by (cases "split_on sep s") auto
    with False Cons.prems have w: "w = c # w'" and ws: "ws = ws'" by auto
    from Cons.IH [OF s] False show ?thesis
      unfolding w ws by (auto split: if_splits)
  qed
qed

lemma split_on_four:
  assumes "split_on sep s = [a, b, c, d]"
  shows "s = a @ sep # b @ sep # c @ sep # d"
    and "sep \<notin> set a" and "sep \<notin> set b" and "sep \<notin> set c" and "sep \<notin> set d"
proof -
  from split_on_head [OF assms] obtain v1 where
    1: "sep \<notin> set a" "s = a @ sep # v1" "split_on sep v1 = [b, c, d]" by auto
  from split_on_head [OF 1(3)] obtain v2 where
    2: "sep \<notin> set b" "v1 = b @ sep # v2" "split_on sep v2 = [c, d]" by auto
  from split_on_head [OF 2(3)] obtain v3 where
    3: "sep \<notin> set c" "v2 = c @ sep # v3" "split_on sep v3 = [d]" by auto
  from split_on_head [OF 3(3)] have 4: "sep \<notin> set d" "v3 = d" by auto
  from 1 2 3 4 show "s = a @ sep # b @ sep # c @ sep # d" by simp
  from 1 2 3 4 show "sep \<notin> set a" "sep \<notin> set b" "sep \<notin> set c" "sep \<notin> set d" by simp_all
qed

lemma ip_int_from_string_octets:
  assumes "ip_int_from_string s = Some a"
  obtains o1 o2 o3 o4 v1 v2 v3 v4 where
    "split_on CHR ''.'' s = [o1, o2, o3, o4]"
    "parse_octet o1 = Some v1" "parse_octet o2 = Some v2"
    "parse_octet o3 = Some v3" "parse_octet o4 = Some v4"
    "a = ((v1 * 256 + v2) * 256 + v3) * 256 + v4"
proof -
  from assms have len: "length (split_on CHR ''.'' s) = 4"
    and th: "map_option from_bytes (those (map parse_octet (split_on CHR ''.'' s))) = Some a"
    by (auto simp: ip_int_from_string_def Let_def split: if_splits)
  from len obtain o1 o2 o3 o4 where sp: "split_on CHR ''.'' s = [o1, o2, o3, o4]"
    by (auto simp: length_Suc_conv eval_nat_numeral)
  from th sp obtain v1 v2 v3 v4 where
    "parse_octet o1 = Some v1" "parse_octet o2 = Some v2"
    "parse_octet o3 = Some v3" "parse_octet o4 = Some v4"
    "a = from_bytes [v1, v2, v3, v4]"
    by (auto split: option.splits)
  with sp that show thesis
    by (simp add: from_bytes_def)
qed

lemma digit_val_range: "is_digit c \<Longrightarrow> 0 \<le> digit_val c \<and> digit_val c \<le> 9"
  by (auto simp: is_digit_def digit_val_def)

lemma digit_val_inj: "is_digit x \<Longrightarrow> is_digit y \<Longrightarrow> digit_val x = digit_val y \<Longrightarrow> x = y"
  by (auto simp: is_digit_def digit_val_def)

lemma short_list_cases:
  assumes "xs \<noteq> []" and "length xs \<le> 3"
  obtains x where "xs = [x]" | x y where "xs = [x, y]" | x y z where "xs = [x, y, z]"
proof (cases xs)
  case Nil
  with assms show ?thesis by simp
next
  case (Cons x xs1)
  show ?thesis
  proof (cases xs1)
    case Nil
    with Cons that show ?thesis by simp
  next
    case (Cons y xs2)
    note c2 = Cons
    show ?thesis
    proof (cases xs2)
      case Nil
      with \<open>xs = x # xs1\<close> c2 that show ?thesis by simp
    next
      case (Cons z xs3)
      with \<open>xs = x # xs1\<close> c2 assms(2) have "xs = [x, y, z]" by simp
      with that show ?thesis by simp
    qed
  qed
qed

lemma parse_octet_Some:
  assumes "parse_octet os = Some v"
  shows "os \<noteq> []" and "list_all is_digit os" and "length os \<le> 3"
    and "v = int_of_str os" and "v \<le> 255"
  using assms by (auto simp: parse_octet_def split: if_splits)

lemma int_of_str_simps:
  "int_of_str [x] = digit_val x"
  "int_of_str [x, y] = 10 * digit_val x + digit_val y"
  "int_of_str [x, y, z] = 100 * digit_val x + 10 * digit_val y + digit_val z"
  by (simp_all add: int_of_str_def)

lemma parse_octet_nonneg: "parse_octet os = Some v \<Longrightarrow> 0 \<le> v"
proof -
  assume a: "parse_octet os = Some v"
  note p = parse_octet_Some [OF a]
  from p(1,3) show ?thesis
  proof (cases os rule: short_list_cases)
    case (1 x)
    with p(2,4) digit_val_range [of x] show ?thesis by (simp add: int_of_str_simps)
  next
    case (2 x y)
    with p(2,4) digit_val_range [of x] digit_val_range [of y] show ?thesis
      by (simp add: int_of_str_simps)
  next
    case (3 x y z)
    with p(2,4) digit_val_range [of x] digit_val_range [of y] digit_val_range [of z]
    show ?thesis by (simp add: int_of_str_simps)
  qed
qed

lemma three_digits_unique:
  fixes x y z x' y' z' :: int
  assumes "0 \<le> x" "x \<le> 9" "0 \<le> y" "y \<le> 9" "0 \<le> z" "z \<le> 9"
      and "0 \<le> x'" "x' \<le> 9" "0 \<le> y'" "y' \<le> 9" "0 \<le> z'" "z' \<le> 9"
      and eq: "100 * x + 10 * y + z = 100 * x' + 10 * y' + z'"
  shows "x = x' \<and> y = y' \<and> z = z'"
proof -
  from assms have "\<not> x < x'" and "\<not> x' < x" by linarith+
  then have x: "x = x'" by simp
  with assms have "\<not> y < y'" and "\<not> y' < y" by linarith+
  then have y: "y = y'" by simp
  with x eq show ?thesis by simp
qed

lemma digits_of_three:
  assumes "is_digit x" "is_digit y" "is_digit z"
      and "100 * digit_val x + 10 * digit_val y + digit_val z
             = 100 * digit_val x' + 10 * digit_val y' + digit_val z'"
      and "is_digit x'" "is_digit y'" "is_digit z'"
  shows "x = x' \<and> y = y' \<and> z = z'"
proof -
  from assms digit_val_range [of x] digit_val_range [of y] digit_val_range [of z]
    digit_val_range [of x'] digit_val_range [of y'] digit_val_range [of z']
  have "digit_val x = digit_val x' \<and> digit_val y = digit_val y' \<and> digit_val z = digit_val z'"
    by (intro three_digits_unique) simp_all
  with assms show ?thesis by (simp add: digit_val_inj)
qed

lemma parse_octet_three_digits:
  assumes "parse_octet os = Some v" and "100 \<le> v"
      and "parse_octet [x', y', z'] = Some v"
  shows "os = [x', y', z']"
proof -
  note p = parse_octet_Some [OF assms(1)] and q = parse_octet_Some [OF assms(3)]
  from p(1,3) show ?thesis
  proof (cases os rule: short_list_cases)
    case (1 x)
    with p(2,4) assms(2) digit_val_range [of x] show ?thesis
      by (simp add: int_of_str_simps)
  next
    case (2 x y)
    with p(2,4) assms(2) digit_val_range [of x] digit_val_range [of y] show ?thesis
      by (simp add: int_of_str_simps)
  next
    case (3 x y z)
    with p(2,4) q(2,4) digits_of_three [of x y z x' y' z'] show ?thesis
      by (simp add: int_of_str_simps)
  qed
qed

lemma parse_octet_169: "parse_octet os = Some 169 \<longleftrightarrow> os = ''169''"
proof
  assume "parse_octet os = Some 169"
  moreover have "parse_octet ''169'' = Some 169"
    by (simp add: parse_octet_def is_digit_def int_of_str_def digit_val_def)
  ultimately show "os = ''169''"
    using parse_octet_three_digits [of os 169] by simp
next
  assume "os = ''169''"
  then show "parse_octet os = Some 169"
    by (simp add: parse_octet_def is_digit_def int_of_str_def digit_val_def)
qed

lemma parse_octet_254: "parse_octet os = Some 254 \<longleftrightarrow> os = ''254''"
proof
  assume "parse_octet os = Some 254"
  moreover have "parse_octet ''254'' = Some 254"
    by (simp add: parse_octet_def is_digit_def int_of_str_def digit_val_def)
  ultimately show "os = ''254''"
    using parse_octet_three_digits [of os 254] by simp
next
  assume "os = ''254''"
  then show "parse_octet os = Some 254"
    by (simp add: parse_octet_def is_digit_def int_of_str_def digit_val_def)
qed

lemma startswith_octets:
  assumes "o1 \<noteq> []" "length o1 \<le> 3" "o2 \<noteq> []" "length o2 \<le> 3"
  shows "startswith (o1 @ CHR ''.'' # o2 @ CHR ''.'' # rest) ''169.254''
           \<longleftrightarrow> o1 = ''169'' \<and> o2 = ''254''"
  using assms(1,2)
proof (cases o1 rule: short_list_cases)
  case (1 x)
  then show ?thesis by auto
next
  case (2 x y)
  then show ?thesis by auto
next
  case o1: (3 x y z)
  from assms(3,4) show ?thesis
  proof (cases o2 rule: short_list_cases)
    case (1 a)
    with o1 show ?thesis by auto
  next
    case (2 a b)
    with o1 show ?thesis by auto
  next
    case (3 a b c)
    with o1 show ?thesis by auto
  qed
qed

lemma link_local_octets:
  assumes "0 \<le> v1" "v1 \<le> 255" "0 \<le> v2" "v2 \<le> 255" "0 \<le> v3" "v3 \<le> 255"
      "0 \<le> v4" "v4 \<le> (255::int)"
  shows "link_local (((v1 * 256 + v2) * 256 + v3) * 256 + v4) \<longleftrightarrow> v1 = 169 \<and> v2 = 254"
proof -
  define low where "low = v3 * 256 + v4"
  define high where "high = v1 * 256 + v2"
  from assms have low: "0 \<le> low" "low < 65536"
    unfolding low_def by linarith+
  have "((v1 * 256 + v2) * 256 + v3) * 256 + v4 = low + high * 65536"
    by (simp add: low_def high_def algebra_simps)
  also have "\<dots> div 65536 = high + low div 65536"
    by (rule div_mult_self1) simp
  also have "low div 65536 = 0"
    using low by simp
  finally have "(((v1 * 256 + v2) * 256 + v3) * 256 + v4) div 65536 = high"
    by simp
  moreover have "high = 169 * 256 + 254 \<longleftrightarrow> v1 = 169 \<and> v2 = 254"
  proof
    assume h: "high = 169 * 256 + 254"
    with assms(3,4) have "\<not> v1 \<le> 168" and "\<not> 170 \<le> v1"
      unfolding high_def by linarith+
    then have "v1 = 169" by linarith
    with h show "v1 = 169 \<and> v2 = 254" by (simp add: high_def)
  next
    assume "v1 = 169 \<and> v2 = 254"
    then show "high = 169 * 256 + 254" by (simp add: high_def)
  qed
  ultimately show ?thesis
    by (simp add: link_local_def)
qed

lemma valid_address_link_local:
  assumes "ip_int_from_string s = Some a"
  shows "startswith s ''169.254'' \<longleftrightarrow> link_local a"
proof -
  from assms obtain o1 o2 o3 o4 v1 v2 v3 v4 where
    sp: "split_on CHR ''.'' s = [o1, o2, o3, o4]"
    and p: "parse_octet o1 = Some v1" "parse_octet o2 = Some v2"
           "parse_octet o3 = Some v3" "parse_octet o4 = Some v4"
    and a: "a = ((v1 * 256 + v2) * 256 + v3) * 256 + v4"
    by (rule ip_int_from_string_octets)
  from split_on_four(1) [OF sp]
  have s: "s = o1 @ CHR ''.'' # o2 @ CHR ''.'' # (o3 @ CHR ''.'' # o4)" by simp
  have "startswith s ''169.254'' \<longleftrightarrow> o1 = ''169'' \<and> o2 = ''254''"
    unfolding s
    using parse_octet_Some(1,3) [OF p(1)] parse_octet_Some(1,3) [OF p(2)]
    by (rule startswith_octets)
  also have "\<dots> \<longleftrightarrow> v1 = 169 \<and> v2 = 254"
    using p(1,2) parse_octet_169 [of o1] parse_octet_254 [of o2] by auto
  also have "\<dots> \<longleftrightarrow> link_local a"
    unfolding a
    using parse_octet_nonneg [OF p(1)] parse_octet_Some(5) [OF p(1)]
      parse_octet_nonneg [OF p(2)] parse_octet_Some(5) [OF p(2)]
      parse_octet_nonneg [OF p(3)] parse_octet_Some(5) [OF p(3)]
      parse_octet_nonneg [OF p(4)] parse_octet_Some(5) [OF p(4)]
    by (rule link_local_octets [symmetric])
  finally show ?thesis .
qed

lemma digits_no_slash: "list_all is_digit os \<Longrightarrow> CHR ''/'' \<notin> set os"
  by (auto simp: list_all_iff is_digit_def)

lemma valid_address_chars:
  assumes "ip_int_from_string s = Some a"
  shows "s \<noteq> []" and "CHR ''/'' \<notin> set s" and "CHR ''.'' \<in> set s"
proof -
  from assms obtain o1 o2 o3 o4 v1 v2 v3 v4 where
    sp: "split_on CHR ''.'' s = [o1, o2, o3, o4]"
    and p: "parse_octet o1 = Some v1" "parse_octet o2 = Some v2"
           "parse_octet o3 = Some v3" "parse_octet o4 = Some v4"
    by (rule ip_int_from_string_octets)
  from split_on_four(1) [OF sp]
  have s: "s = o1 @ CHR ''.'' # o2 @ CHR ''.'' # o3 @ CHR ''.'' # o4" .
  then show "s \<noteq> []" and "CHR ''.'' \<in> set s" by simp_all
  from p have "CHR ''/'' \<notin> set o1" "CHR ''/'' \<notin> set o2" "CHR ''/'' \<notin> set o3"
      "CHR ''/'' \<notin> set o4"
    by (simp_all add: parse_octet_Some(2) digits_no_slash)
  then show "CHR ''/'' \<notin> set s" unfolding s by simp
qed

lemma enum33: "p \<le> 32 \<Longrightarrow> p = 0 \<or> p = 1 \<or> p = 2 \<or> p = 3 \<or> p = 4 \<or> p = 5 \<or> p = 6
  \<or> p = 7 \<or> p = 8 \<or> p = 9 \<or> p = 10 \<or> p = 11 \<or> p = 12 \<or> p = 13 \<or> p = 14 \<or> p = 15
  \<or> p = 16 \<or> p = 17 \<or> p = 18 \<or> p = 19 \<or> p = 20 \<or> p = 21 \<or> p = 22 \<or> p = 23 \<or> p = 24
  \<or> p = 25 \<or> p = 26 \<or> p = 27 \<or> p = 28 \<or> p = 29 \<or> p = 30 \<or> p = 31 \<or> p = (32::nat)"
  by arith

lemma prefix_of_netmask: "p \<le> 32 \<Longrightarrow> prefix_from_ip_int (ip_int_from_prefix p) = Some p"
  apply (drule enum33)
  apply (elim disjE)
  apply (simp_all add: prefix_from_ip_int_def ip_int_from_prefix_def ALL_ONES_def
           count_righthand_zero_bits_def bit_length_def bit_length_nat.simps)
  done

lemma make_netmask_of_netmask:
  assumes "ip_int_from_string m = Some (ip_int_from_prefix p)" and "p \<le> 32"
  shows "make_netmask m = Some p"
proof -
  have "\<not> is_digit CHR ''.''"
    by (simp add: is_digit_def)
  with valid_address_chars(3) [OF assms(1)] have "\<not> list_all is_digit m"
    by (auto simp: list_all_iff)
  then have a: "prefix_from_prefix_string m = None"
    by (simp add: prefix_from_prefix_string_def)
  have b: "prefix_from_ip_string m = Some p"
    unfolding prefix_from_ip_string_def assms(1)
    by (simp add: prefix_of_netmask [OF assms(2)])
  show ?thesis
    unfolding make_netmask_def a b by simp
qed

lemma split_slash:
  "CHR ''/'' \<notin> set i \<Longrightarrow> CHR ''/'' \<notin> set m \<Longrightarrow>
     split_on CHR ''/'' (i @ ''/'' @ m) = [i, m]"
  by (simp add: split_on_append split_on_no_sep)

lemma ip_interface_network_pair:
  assumes "CHR ''/'' \<notin> set i" and "CHR ''/'' \<notin> set m"
  shows "ip_interface_network (i @ ''/'' @ m) =
           (case ip_int_from_string i of
              None \<Rightarrow> None
            | Some a \<Rightarrow>
                (case make_netmask m of
                   None \<Rightarrow> None
                 | Some p \<Rightarrow> Some (str_network (a AND ip_int_from_prefix p) p)))"
  unfolding ip_interface_network_def split_slash [OF assms] by simp

lemma range_loop_skip:
  "\<forall>(i, m) \<in> set before. startswith i ''169.254'' \<Longrightarrow>
     range_loop (before @ rest) = range_loop rest"
  by (induction before) auto

subsection \<open>The groups of a match\<close>

lemmas match_eval = match_here_def match_quad_def match_plus_def match_star_def
  is_digit_def is_space_def is_dot_or_space_def

lemma finditer_two_adapters:
  "finditer ipconfig_two_adapters
     = [(''169.254.1.5'', ''255.255.0.0'')] @ (''192.168.1.42'', ''255.255.255.0'') # []"
  by (simp add: ipconfig_two_adapters_def match_eval)

lemma finditer_link_local_only:
  "finditer ipconfig_link_local_only = [(''169.254.1.5'', ''255.255.0.0'')]"
  by (simp add: ipconfig_link_local_only_def match_eval)

lemma finditer_unparsable:
  "finditer ipconfig_unparsable
     = [] @ (''10.0.0.300'', ''255.255.255.0'') # [(''192.168.1.42'', ''255.255.255.0'')]"
  by (simp add: ipconfig_unparsable_def match_eval)


lemma match_plus_Some:
  "match_plus P s = Some (t, r) \<Longrightarrow> t \<noteq> [] \<and> (\<forall>c \<in> set t. P c)"
  by (auto simp: match_plus_def split: if_splits dest: set_takeWhileD)

lemma digits_chars: "\<forall>c \<in> set t. is_digit c \<Longrightarrow> CHR ''/'' \<notin> set t"
  by (auto simp: is_digit_def)

lemma match_quad_Some:
  assumes "match_quad s = Some (q, r)"
  shows "q \<noteq> [] \<and> CHR ''/'' \<notin> set q"
proof -
  from assms obtain a s1 s2 b s3 s4 c s5 s6 d where
    m: "match_plus is_digit s = Some (a, s1)" "match_plus is_digit s2 = Some (b, s3)"
       "match_plus is_digit s4 = Some (c, s5)" "match_plus is_digit s6 = Some (d, r)"
    and q: "q = a @ ''.'' @ b @ ''.'' @ c @ ''.'' @ d"
    unfolding match_quad_def by (auto simp: bind_eq_Some_conv)
  from m have "CHR ''/'' \<notin> set a" "CHR ''/'' \<notin> set b" "CHR ''/'' \<notin> set c"
      "CHR ''/'' \<notin> set d"
    by (simp_all add: match_plus_Some digits_chars)
  then show ?thesis
    unfolding q by simp
qed

lemma match_here_Some:
  assumes "match_here s = Some (i, m, n)"
  shows "i \<noteq> [] \<and> m \<noteq> [] \<and> CHR ''/'' \<notin> set i \<and> CHR ''/'' \<notin> set m"
proof -
  from assms obtain s4 s5 s10 s11 where
    "match_quad s4 = Some (i, s5)" "match_quad s10 = Some (m, s11)"
    unfolding match_here_def by (auto simp: bind_eq_Some_conv)
  then show ?thesis
    using match_quad_Some by blast
qed


lemma finditer_groups:
  "(i, m) \<in> set (finditer s) \<Longrightarrow>
     i \<noteq> [] \<and> m \<noteq> [] \<and> CHR ''/'' \<notin> set i \<and> CHR ''/'' \<notin> set m"
proof (induction "length s" arbitrary: s rule: less_induct)
  case less
  show ?case
  proof (cases s)
    case Nil
    with less.prems show ?thesis by simp
  next
    case (Cons c cs)
    show ?thesis
    proof (cases "match_here (c # cs)")
      case None
      with Cons less.prems have "(i, m) \<in> set (finditer cs)" by simp
      moreover from Cons have "length cs < length s" by simp
      ultimately show ?thesis by (rule less.hyps [rotated])
    next
      case (Some t)
      then obtain i' m' n where t: "match_here (c # cs) = Some (i', m', n)"
        by (cases t) auto
      with Cons less.prems
      have "(i, m) = (i', m') \<or> (i, m) \<in> set (finditer (drop (n - 1) cs))"
        by auto
      then show ?thesis
      proof
        assume "(i, m) = (i', m')"
        with match_here_Some [OF t] show ?thesis by simp
      next
        assume "(i, m) \<in> set (finditer (drop (n - 1) cs))"
        moreover from Cons have "length (drop (n - 1) cs) < length s" by simp
        ultimately show ?thesis by (rule less.hyps [rotated])
      qed
    qed
  qed
qed

subsection \<open>The range resolver\<close>

text \<open>
  Claim C1. Let the matches of the pattern in the interface-configuration text be, in
  document order, some pairs whose addresses are in the link-local range
  \<^verbatim>\<open>169.254.0.0/16\<close>, then a pair with a valid address \<open>a\<close> outside that range and a
  valid subnet mask of \<open>p\<close> leading ones, then any further pairs. Then the range
  resolver returns the network of that pair: the address with the host bits cleared by
  the mask, over the prefix length \<open>p\<close>, in CIDR notation. For the address
  \<^verbatim>\<open>192.168.1.42\<close> with the mask \<^verbatim>\<open>255.255.255.0\<close> this is \<^verbatim>\<open>192.168.1.0/24\<close>.
\<close>

theorem C1_first_qualifying_pair:
  assumes "finditer output = before @ (ip_str, mask_str) # after"
      and "\<forall>(i, m) \<in> set before. \<exists>b. ip_int_from_string i = Some b \<and> link_local b"
      and "ip_int_from_string ip_str = Some a" and "\<not> link_local a"
      and "ip_int_from_string mask_str = Some (ip_int_from_prefix p)" and "p \<le> 32"
  shows "get_local_network_range_windows (Inr output)
           = Some (str_network (a AND ip_int_from_prefix p) p)"
proof -
  from assms(2) have "\<forall>(i, m) \<in> set before. startswith i ''169.254''"
    using valid_address_link_local by blast
  then have skip: "range_loop (finditer output) = range_loop ((ip_str, mask_str) # after)"
    unfolding assms(1) by (rule range_loop_skip)
  from assms(3,4) have q: "\<not> startswith ip_str ''169.254''"
    by (simp add: valid_address_link_local)
  note i = valid_address_chars [OF assms(3)] and m = valid_address_chars [OF assms(5)]
  have "ip_interface_network (ip_str @ ''/'' @ mask_str)
          = Some (str_network (a AND ip_int_from_prefix p) p)"
    unfolding ip_interface_network_pair [OF i(2) m(2)]
    by (simp add: assms(3) make_netmask_of_netmask [OF assms(5,6)])
  with q i(1) m(1) have "range_loop ((ip_str, mask_str) # after)
          = Inr (str_network (a AND ip_int_from_prefix p) p)"
    by simp
  with skip show ?thesis
    by (simp add: get_local_network_range_windows_def)
qed

theorem C1_first_qualifying_pair_witness:
  "get_local_network_range_windows (Inr ipconfig_two_adapters) = Some ''192.168.1.0/24''"
proof -
  have a: "ip_int_from_string ''169.254.1.5'' = Some 2851995909"
    and b: "link_local 2851995909"
    and c: "ip_int_from_string ''192.168.1.42'' = Some 3232235818"
    and d: "\<not> link_local 3232235818"
    and e: "ip_int_from_string ''255.255.255.0'' = Some (ip_int_from_prefix 24)"
    and f: "str_network (3232235818 AND ip_int_from_prefix 24) 24 = ''192.168.1.0/24''"
    by (simp_all add: ip_eval link_local_def ip_int_from_prefix_def ALL_ONES_def
          str_network_def str_address_def str_nat.simps digit_char_def)
  from a b have g: "\<forall>(i, m) \<in> set [(''169.254.1.5'', ''255.255.0.0'')].
                      \<exists>b. ip_int_from_string i = Some b \<and> link_local b"
    by simp
  from C1_first_qualifying_pair [OF finditer_two_adapters g c d e] f
  show ?thesis by simp
qed

text \<open>
  Claim C5. The range resolver returns no range when every pair of the text has a
  link-local address (which includes a text with no pair at all), when the first pair
  that passes the link-local test has an address or a mask that cannot be parsed, and
  when \<^verbatim>\<open>ipconfig\<close> could not be run. The function is one pass over the matches: it
  looks at no pair after the first one that passes the test.
\<close>

theorem C5_range_not_found:
  "((\<forall>(i, m) \<in> set (finditer output). \<exists>b. ip_int_from_string i = Some b \<and> link_local b)
      \<longrightarrow> get_local_network_range_windows (Inr output) = None)
   \<and> (finditer output = before @ (ip_str, mask_str) # after
        \<and> (\<forall>(i, m) \<in> set before. \<exists>b. ip_int_from_string i = Some b \<and> link_local b)
        \<and> \<not> startswith ip_str ''169.254''
        \<and> (ip_int_from_string ip_str = None \<or> make_netmask mask_str = None)
      \<longrightarrow> get_local_network_range_windows (Inr output) = None)
   \<and> get_local_network_range_windows (Inl e) = None"
proof -
  have skip: "range_loop (ms @ rest) = range_loop rest"
    if "\<forall>(i, m) \<in> set ms. \<exists>b. ip_int_from_string i = Some b \<and> link_local b" for ms rest
  proof -
    from that have "\<forall>(i, m) \<in> set ms. startswith i ''169.254''"
      using valid_address_link_local by blast
    then show ?thesis by (rule range_loop_skip)
  qed
  have first: "get_local_network_range_windows (Inr output) = None"
    if "\<forall>(i, m) \<in> set (finditer output). \<exists>b. ip_int_from_string i = Some b \<and> link_local b"
    using skip [OF that, of "[]"] by (simp add: get_local_network_range_windows_def)
  have second: "get_local_network_range_windows (Inr output) = None"
    if f: "finditer output = before @ (ip_str, mask_str) # after"
      and b: "\<forall>(i, m) \<in> set before. \<exists>b. ip_int_from_string i = Some b \<and> link_local b"
      and q: "\<not> startswith ip_str ''169.254''"
      and u: "ip_int_from_string ip_str = None \<or> make_netmask mask_str = None"
  proof -
    from f have "(ip_str, mask_str) \<in> set (finditer output)" by simp
    from finditer_groups [OF this]
    have g: "ip_str \<noteq> []" "mask_str \<noteq> []" "CHR ''/'' \<notin> set ip_str"
        "CHR ''/'' \<notin> set mask_str"
      by simp_all
    from u have "ip_interface_network (ip_str @ ''/'' @ mask_str) = None"
      unfolding ip_interface_network_pair [OF g(3,4)] by (auto split: option.splits)
    with q g(1,2) have "range_loop ((ip_str, mask_str) # after) = Inl ValueError"
      by simp
    with skip [OF b, of "(ip_str, mask_str) # after"] show ?thesis
      by (simp add: get_local_network_range_windows_def f)
  qed
  have third: "get_local_network_range_windows (Inl e) = None"
    by (simp add: get_local_network_range_windows_def)
  from first second third show ?thesis by blast
qed

theorem C5_range_not_found_witness:
  "get_local_network_range_windows (Inr ipconfig_link_local_only) = None
   \<and> get_local_network_range_windows (Inr ipconfig_unparsable) = None
   \<and> get_local_network_range_windows (Inl CalledProcessError) = None"
proof -
  have a: "ip_int_from_string ''169.254.1.5'' = Some 2851995909"
    and b: "link_local 2851995909"
    and c: "ip_int_from_string ''10.0.0.300'' = None"
    and d: "\<not> startswith ''10.0.0.300'' ''169.254''"
    by (simp_all add: ip_eval link_local_def)
  from a b have g: "\<forall>(i, m) \<in> set (finditer ipconfig_link_local_only).
                      \<exists>b. ip_int_from_string i = Some b \<and> link_local b"
    by (simp add: finditer_link_local_only)
  from C5_range_not_found
         [of ipconfig_link_local_only "[]" "''10.0.0.300''" "''255.255.255.0''"
             "[(''192.168.1.42'', ''255.255.255.0'')]" CalledProcessError]
       C5_range_not_found
         [of ipconfig_unparsable "[]" "''10.0.0.300''" "''255.255.255.0''"
             "[(''192.168.1.42'', ''255.255.255.0'')]" CalledProcessError]
       g c d finditer_unparsable
  show ?thesis by simp
qed

end
